theory Spec2Isabelle
  imports Complex_Main "HOL-Library.Char_ord" "HOL-Library.List_Lexorder"
    "HOL-Library.Product_Lexorder" "HOL-Library.AList" "HOL-Library.Multiset"
begin

section \<open>Python values, errors and strings\<close>

text \<open>
  The scripts read a CSV file with \<open>csv.DictReader\<close> and work on its rows. A row is a
  dictionary from column names to cells; a cell is a \<open>str\<close>, or \<open>None\<close> where the line
  had fewer fields than the header (\<open>restval\<close>). A column that the header does not have
  is a key the row does not have. A dictionary is an association list in insertion
  order with distinct keys, read with \<open>map_of\<close> and written with \<open>AList.update\<close>, which
  keeps the position of a key that is already there, as a Python \<open>dict\<close> does.

  A string is the list of its code points; the model has the code points below 256.
  Exceptions are values: \<open>Inl\<close> of the exception, \<open>Inr\<close> of the result.
\<close>

datatype pyerr = ValueError | TypeError | AttributeError | KeyError

datatype cell = PyNone | PyStr string

type_synonym row = "(string \<times> cell) list"

fun and_then :: "pyerr + 'a \<Rightarrow> ('a \<Rightarrow> pyerr + 'b) \<Rightarrow> pyerr + 'b" where
  "and_then (Inl e) f = Inl e"
| "and_then (Inr v) f = f v"

text \<open>\<open>str.isspace\<close> on the code points below 256, and \<open>str.strip()\<close>.\<close>

definition is_space :: "char \<Rightarrow> bool" where
  "is_space c = (c \<in> set [CHR 0x09, CHR 0x0A, CHR 0x0B, CHR 0x0C, CHR 0x0D,
     CHR 0x1C, CHR 0x1D, CHR 0x1E, CHR 0x1F, CHR 0x20, CHR 0x85, CHR 0xA0])"

definition strip :: "string \<Rightarrow> string" where
  "strip s = rev (dropWhile is_space (rev (dropWhile is_space s)))"

text \<open>\<open>str.lower()\<close>: the upper-case letters below 256 and their lower-case forms.\<close>

definition upper_chars :: "char list" where
  "upper_chars = ''ABCDEFGHIJKLMNOPQRSTUVWXYZ'' @
     [CHR 0xC0, CHR 0xC1, CHR 0xC2, CHR 0xC3, CHR 0xC4, CHR 0xC5, CHR 0xC6, CHR 0xC7,
      CHR 0xC8, CHR 0xC9, CHR 0xCA, CHR 0xCB, CHR 0xCC, CHR 0xCD, CHR 0xCE, CHR 0xCF,
      CHR 0xD0, CHR 0xD1, CHR 0xD2, CHR 0xD3, CHR 0xD4, CHR 0xD5, CHR 0xD6,
      CHR 0xD8, CHR 0xD9, CHR 0xDA, CHR 0xDB, CHR 0xDC, CHR 0xDD, CHR 0xDE]"

definition lower_chars :: "char list" where
  "lower_chars = ''abcdefghijklmnopqrstuvwxyz'' @
     [CHR 0xE0, CHR 0xE1, CHR 0xE2, CHR 0xE3, CHR 0xE4, CHR 0xE5, CHR 0xE6, CHR 0xE7,
      CHR 0xE8, CHR 0xE9, CHR 0xEA, CHR 0xEB, CHR 0xEC, CHR 0xED, CHR 0xEE, CHR 0xEF,
      CHR 0xF0, CHR 0xF1, CHR 0xF2, CHR 0xF3, CHR 0xF4, CHR 0xF5, CHR 0xF6,
      CHR 0xF8, CHR 0xF9, CHR 0xFA, CHR 0xFB, CHR 0xFC, CHR 0xFD, CHR 0xFE]"

definition lower_char :: "char \<Rightarrow> char" where
  "lower_char c = (case map_of (zip upper_chars lower_chars) c of None \<Rightarrow> c | Some d \<Rightarrow> d)"

definition lower :: "string \<Rightarrow> string" where
  "lower s = map lower_char s"

text \<open>\<open>str.isdigit()\<close>: not empty, and every character a digit (the decimal digits and
  the superscripts one, two and three).\<close>

definition is_digit_char :: "char \<Rightarrow> bool" where
  "is_digit_char c = (c \<in> set (''0123456789'' @ [CHR 0xB2, CHR 0xB3, CHR 0xB9]))"

definition isdigit :: "string \<Rightarrow> bool" where
  "isdigit s = (s \<noteq> [] \<and> list_all is_digit_char s)"

text \<open>\<open>row.get(k, default)\<close>, \<open>row[k]\<close> and \<open>.strip()\<close> on what they return.\<close>

definition dict_get :: "row \<Rightarrow> string \<Rightarrow> cell \<Rightarrow> cell" where
  "dict_get r k d = (case map_of r k of None \<Rightarrow> d | Some v \<Rightarrow> v)"

definition dict_item :: "row \<Rightarrow> string \<Rightarrow> pyerr + cell" where
  "dict_item r k = (case map_of r k of None \<Rightarrow> Inl KeyError | Some v \<Rightarrow> Inr v)"

definition cell_strip :: "cell \<Rightarrow> pyerr + string" where
  "cell_strip c = (case c of PyNone \<Rightarrow> Inl AttributeError | PyStr s \<Rightarrow> Inr (strip s))"

text \<open>\<open>d.setdefault(k, []).append(v)\<close> and \<open>d[k].append(v)\<close> on a \<open>defaultdict(list)\<close>.\<close>

definition dict_append :: "'k \<Rightarrow> 'v \<Rightarrow> ('k \<times> 'v list) list \<Rightarrow> ('k \<times> 'v list) list" where
  "dict_append k v d =
     (case map_of d k of None \<Rightarrow> d @ [(k, [v])] | Some vs \<Rightarrow> AList.update k (vs @ [v]) d)"

text \<open>\<open>d[k].add(v)\<close> on a \<open>defaultdict(set)\<close>.\<close>

definition dict_add :: "'k \<Rightarrow> 'v \<Rightarrow> ('k \<times> 'v set) list \<Rightarrow> ('k \<times> 'v set) list" where
  "dict_add k v d =
     (case map_of d k of None \<Rightarrow> d @ [(k, {v})] | Some vs \<Rightarrow> AList.update k (insert v vs) d)"

text \<open>
  \<open>sorted(xs, key=f)\<close> computes the key of every element first (an exception of a key
  ends the call), then sorts stably by the keys alone. \<open>py_sorted\<close> is for keys of a
  linear order (strings, integers and tuples of them).
\<close>

fun map_err :: "('a \<Rightarrow> pyerr + 'b) \<Rightarrow> 'a list \<Rightarrow> pyerr + 'b list" where
  "map_err f [] = Inr []"
| "map_err f (x # xs) = and_then (f x) (\<lambda>y. and_then (map_err f xs) (\<lambda>ys. Inr (y # ys)))"

definition py_sorted :: "('a \<Rightarrow> pyerr + 'k::linorder) \<Rightarrow> 'a list \<Rightarrow> pyerr + 'a list" where
  "py_sorted key xs =
     and_then (map_err key xs) (\<lambda>ks. Inr (map snd (sort_key fst (zip ks xs))))"

text \<open>
  \<open>float\<close> is a parameter of the model: \<open>float_of s\<close> is \<open>None\<close> where \<open>float(s)\<close> raises
  \<open>ValueError\<close>, and the float otherwise. \<open>float(None)\<close> raises \<open>TypeError\<close>.
\<close>

definition py_float :: "(string \<Rightarrow> 'f option) \<Rightarrow> cell \<Rightarrow> pyerr + 'f" where
  "py_float float_of c =
     (case c of PyNone \<Rightarrow> Inl TypeError
      | PyStr s \<Rightarrow> (case float_of s of None \<Rightarrow> Inl ValueError | Some x \<Rightarrow> Inr x))"

text \<open>
  Where floats are compared, a float is \<open>NaN\<close> or a number: a finite one (the real it
  denotes, so that 0.0 and -0.0 are one number, as they are for \<open><\<close> and \<open>==\<close>) or an
  infinity. The numbers are linearly ordered; every comparison with \<open>NaN\<close> is false.
\<close>

datatype pynum = NegInf | Finite real | PosInf

datatype pyfloat = NaN | Num pynum

fun pynum_le :: "pynum \<Rightarrow> pynum \<Rightarrow> bool" where
  "pynum_le NegInf y = True"
| "pynum_le (Finite x) NegInf = False"
| "pynum_le (Finite x) (Finite y) = (x \<le> y)"
| "pynum_le (Finite x) PosInf = True"
| "pynum_le PosInf NegInf = False"
| "pynum_le PosInf (Finite y) = False"
| "pynum_le PosInf PosInf = True"

instantiation pynum :: "{zero, uminus, linorder}"
begin

definition zero_pynum :: pynum where
  "zero_pynum = Finite 0"

definition uminus_pynum :: "pynum \<Rightarrow> pynum" where
  "uminus_pynum x = (case x of NegInf \<Rightarrow> PosInf | Finite r \<Rightarrow> Finite (- r) | PosInf \<Rightarrow> NegInf)"

definition less_eq_pynum :: "pynum \<Rightarrow> pynum \<Rightarrow> bool" where
  "less_eq_pynum x y = pynum_le x y"

definition less_pynum :: "pynum \<Rightarrow> pynum \<Rightarrow> bool" where
  "less_pynum x y = (pynum_le x y \<and> \<not> pynum_le y x)"

instance
proof
  fix x y z :: pynum
  show "(x < y) = (x \<le> y \<and> \<not> y \<le> x)"
    by (simp add: less_pynum_def less_eq_pynum_def)
  show "x \<le> x"
    by (cases x) (simp_all add: less_eq_pynum_def)
  show "x \<le> y \<Longrightarrow> y \<le> z \<Longrightarrow> x \<le> z"
    by (cases x; cases y; cases z) (simp_all add: less_eq_pynum_def)
  show "x \<le> y \<Longrightarrow> y \<le> x \<Longrightarrow> x = y"
    by (cases x; cases y) (simp_all add: less_eq_pynum_def)
  show "x \<le> y \<or> y \<le> x"
    by (cases x; cases y) (auto simp: less_eq_pynum_def)
qed

end

instantiation pyfloat :: zero
begin

definition zero_pyfloat :: pyfloat where
  "zero_pyfloat = Num 0"

instance ..

end

text \<open>\<open>-x\<close> on a float.\<close>

definition py_neg :: "pyfloat \<Rightarrow> pyfloat" where
  "py_neg x = (case x of NaN \<Rightarrow> NaN | Num n \<Rightarrow> Num (- n))"

text \<open>
  \<open>sorted\<close> and \<open>list.sort\<close> on keys that are pairs of floats. When no key holds a \<open>NaN\<close>
  the keys are linearly ordered and the sort is the stable one; with \<open>reverse=True\<close> the
  list is reversed, sorted, and the result reversed, so that equal keys keep their
  order. When a key holds a \<open>NaN\<close> the list that the sort returns is no order of the keys:
  it is the parameter \<open>sorted_nan\<close> of the model, a function of \<open>reverse\<close>, the keys and
  the list.
\<close>

definition num_of :: "pyfloat \<Rightarrow> pynum" where
  "num_of x = (case x of NaN \<Rightarrow> 0 | Num n \<Rightarrow> n)"

definition key_ordered :: "pyfloat \<times> pyfloat \<Rightarrow> bool" where
  "key_ordered k = (fst k \<noteq> NaN \<and> snd k \<noteq> NaN)"

definition key_num :: "pyfloat \<times> pyfloat \<Rightarrow> pynum \<times> pynum" where
  "key_num k = (num_of (fst k), num_of (snd k))"

definition py_sorted_float :: "(bool \<Rightarrow> (pyfloat \<times> pyfloat) list \<Rightarrow> 'a list \<Rightarrow> 'a list) \<Rightarrow> bool \<Rightarrow> ('a \<Rightarrow> pyerr + pyfloat \<times> pyfloat) \<Rightarrow> 'a list \<Rightarrow> pyerr + 'a list" where
  "py_sorted_float sorted_nan reverse key xs =
     and_then (map_err key xs) (\<lambda>ks.
       if list_all key_ordered ks
       then (if reverse
             then Inr (map snd (rev (sort_key fst (rev (zip (map key_num ks) xs)))))
             else Inr (map snd (sort_key fst (zip (map key_num ks) xs))))
       else Inr (sorted_nan reverse ks xs))"

text \<open>
  For closed evaluations: \<open>float\<close> and \<open>str\<close> on the strings of one to fifteen decimal
  digits, where \<open>float\<close> is exact and \<open>str\<close> of the result prints the number without
  leading zeros, followed by \<open>.0\<close>. On every other string \<open>float_digits\<close> answers
  \<open>None\<close>; it is applied below to digit strings and to strings that are no float
  literals only.
\<close>

definition digit_value :: "char \<Rightarrow> nat" where
  "digit_value c = (case map_of (zip ''0123456789'' [0, 1, 2, 3, 4, 5, 6, 7, 8, 9]) c of
     None \<Rightarrow> 0 | Some n \<Rightarrow> n)"

definition digits_value :: "string \<Rightarrow> nat" where
  "digits_value s = foldl (\<lambda>n c. 10 * n + digit_value c) 0 s"

definition float_digits :: "string \<Rightarrow> real option" where
  "float_digits s =
     (if s \<noteq> [] \<and> length s \<le> 15 \<and> list_all (\<lambda>c. c \<in> set ''0123456789'') s
      then Some (real (digits_value s)) else None)"

fun digits_of :: "nat \<Rightarrow> nat \<Rightarrow> string" where
  "digits_of 0 n = []"
| "digits_of (Suc fuel) n =
     (if n < 10 then [''0123456789'' ! n]
      else digits_of fuel (n div 10) @ [''0123456789'' ! (n mod 10)])"

definition str_digits :: "real \<Rightarrow> string" where
  "str_digits x = digits_of 16 (nat \<lfloor>x\<rfloor>) @ ''.0''"

text \<open>The same \<open>float\<close> with its values among the floats that are compared, and a value
  for \<open>sorted_nan\<close>, which no evaluation below consults.\<close>

definition pyfloat_digits :: "string \<Rightarrow> pyfloat option" where
  "pyfloat_digits s = map_option (\<lambda>x. Num (Finite x)) (float_digits s)"

definition sorted_nan_unused :: "bool \<Rightarrow> (pyfloat \<times> pyfloat) list \<Rightarrow> 'a list \<Rightarrow> 'a list" where
  "sorted_nan_unused reverse ks xs = xs"

section \<open>main2: the division rank\<close>

definition EXPECTED_DIVISIONS :: "string list" where
  "EXPECTED_DIVISIONS = [''Sub-Junior'', ''Junior'', ''M1'', ''M2'', ''M3'', ''Open'']"

text \<open>\<open>list.index\<close> raises \<open>ValueError\<close> when the element is not in the list.\<close>

fun list_index :: "'a list \<Rightarrow> 'a \<Rightarrow> pyerr + nat" where
  "list_index [] x = Inl ValueError"
| "list_index (y # ys) x =
     (if y = x then Inr 0 else and_then (list_index ys x) (\<lambda>i. Inr (Suc i)))"

definition get_division_rank :: "string \<Rightarrow> pyerr + nat" where
  "get_division_rank division =
     (if division \<in> set EXPECTED_DIVISIONS then list_index EXPECTED_DIVISIONS division
      else Inr (length EXPECTED_DIVISIONS))"

section \<open>main2: deduplication\<close>

text \<open>
  \<open>parse_csv\<close> from the rows on: \<open>parse_csv_row\<close> is the body of its loop over the rows,
  on the dictionary \<open>athletes_by_name\<close>.
\<close>

type_synonym athletes = "(string \<times> row) list"

definition parse_csv_row :: "athletes \<Rightarrow> row \<Rightarrow> pyerr + athletes" where
  "parse_csv_row athletes_by_name row =
     and_then (cell_strip (dict_get row ''Name'' (PyStr ''''))) (\<lambda>name.
       if name = [] then Inr athletes_by_name
       else
         and_then (cell_strip (dict_get row ''Division'' (PyStr ''''))) (\<lambda>division.
         and_then (get_division_rank division) (\<lambda>current_rank.
           case map_of athletes_by_name name of
             Some existing \<Rightarrow>
               and_then (cell_strip (dict_get existing ''Division'' (PyStr ''''))) (\<lambda>existing_division.
               and_then (get_division_rank existing_division) (\<lambda>existing_rank.
                 if current_rank < existing_rank
                 then Inr (AList.update name row athletes_by_name)
                 else Inr athletes_by_name))
           | None \<Rightarrow> Inr (AList.update name row athletes_by_name))))"

fun parse_csv_loop :: "athletes \<Rightarrow> row list \<Rightarrow> pyerr + athletes" where
  "parse_csv_loop athletes_by_name [] = Inr athletes_by_name"
| "parse_csv_loop athletes_by_name (row # rows) =
     and_then (parse_csv_row athletes_by_name row) (\<lambda>d. parse_csv_loop d rows)"

definition parse_csv :: "row list \<Rightarrow> pyerr + athletes" where
  "parse_csv rows = parse_csv_loop [] rows"

section \<open>main2: cohorts and their order\<close>

type_synonym cohort = "string \<times> string \<times> string"

definition group_athletes_row :: "(cohort \<times> row list) list \<Rightarrow> row \<Rightarrow> pyerr + (cohort \<times> row list) list" where
  "group_athletes_row groups athlete =
     and_then (cell_strip (dict_get athlete ''Sex'' (PyStr ''''))) (\<lambda>sex.
     and_then (cell_strip (dict_get athlete ''WeightClassKg'' (PyStr ''''))) (\<lambda>weightclass.
     and_then (cell_strip (dict_get athlete ''Division'' (PyStr ''''))) (\<lambda>division.
       Inr (dict_append (sex, weightclass, division) athlete groups))))"

fun group_athletes_loop :: "(cohort \<times> row list) list \<Rightarrow> row list \<Rightarrow> pyerr + (cohort \<times> row list) list" where
  "group_athletes_loop groups [] = Inr groups"
| "group_athletes_loop groups (athlete # rest) =
     and_then (group_athletes_row groups athlete) (\<lambda>g. group_athletes_loop g rest)"

definition group_athletes :: "athletes \<Rightarrow> pyerr + (cohort \<times> row list) list" where
  "group_athletes athletes_by_name = group_athletes_loop [] (map snd athletes_by_name)"

text \<open>
  \<open>group_sort_key\<close>: the weight class is given to \<open>float\<close>; the key holds \<open>str\<close> of the
  float, or the weight class itself where \<open>float\<close> raised \<open>ValueError\<close>.
\<close>

definition group_sort_key :: "(string \<Rightarrow> 'f option) \<Rightarrow> ('f \<Rightarrow> string) \<Rightarrow> cohort \<Rightarrow> pyerr + (string \<times> string \<times> nat)" where
  "group_sort_key float_of str_of key =
     (case key of (sex, weightclass, division) \<Rightarrow>
        and_then (get_division_rank division) (\<lambda>rank.
          Inr (lower sex,
               (case float_of weightclass of Some weight \<Rightarrow> str_of weight | None \<Rightarrow> weightclass),
               rank)))"

definition sorted_group_keys :: "(string \<Rightarrow> 'f option) \<Rightarrow> ('f \<Rightarrow> string) \<Rightarrow> (cohort \<times> row list) list \<Rightarrow> pyerr + cohort list" where
  "sorted_group_keys float_of str_of groups =
     py_sorted (group_sort_key float_of str_of) (map fst groups)"

text \<open>\<open>main\<close> of main2 from the rows to \<open>sorted_group_keys\<close>, the order in which it
  prints the cohorts.\<close>

definition main2_sorted_group_keys :: "(string \<Rightarrow> 'f option) \<Rightarrow> ('f \<Rightarrow> string) \<Rightarrow> row list \<Rightarrow> pyerr + cohort list" where
  "main2_sorted_group_keys float_of str_of rows =
     and_then (parse_csv rows) (\<lambda>athletes_by_name.
     and_then (group_athletes athletes_by_name) (\<lambda>groups.
       sorted_group_keys float_of str_of groups))"

section \<open>main2: the top three of a cohort\<close>

text \<open>
  \<open>float_or_zero float_of athlete k\<close> is
  \<open>try: float(athlete.get(k, 0)) except ValueError: 0.0\<close>: a missing key gives the
  integer 0, of which \<open>float\<close> is 0.0; only \<open>ValueError\<close> is caught.
\<close>

definition float_or_zero :: "(string \<Rightarrow> pyfloat option) \<Rightarrow> row \<Rightarrow> string \<Rightarrow> pyerr + pyfloat" where
  "float_or_zero float_of athlete k =
     (case map_of athlete k of
        None \<Rightarrow> Inr 0
      | Some c \<Rightarrow>
          (case py_float float_of c of
             Inl e \<Rightarrow> (if e = ValueError then Inr 0 else Inl e)
           | Inr x \<Rightarrow> Inr x))"

definition sort_key_athlete :: "(string \<Rightarrow> pyfloat option) \<Rightarrow> string \<Rightarrow> row \<Rightarrow> pyerr + (pyfloat \<times> pyfloat)" where
  "sort_key_athlete float_of metric athlete =
     and_then (float_or_zero float_of athlete metric) (\<lambda>metric_val.
     and_then (float_or_zero float_of athlete ''BodyweightKg'') (\<lambda>bodyweight.
       Inr (py_neg metric_val, bodyweight)))"

text \<open>
  \<open>print_group_metric_table\<close> sorts the athletes, takes the first three and prints one
  line for each of them. The model returns the lines as the lists of the nine trimmed
  cells that \<open>format\<close> receives, read with \<open>athlete.get(k, "").strip()\<close> in this order;
  the header lines printed before them and the widths of the columns are left out.
  \<open>strip\<close> on a cell that is \<open>None\<close> raises \<open>AttributeError\<close>; an exception ends the run,
  and the value is then the exception alone, without the lines printed before it.
\<close>

definition printed_columns :: "string list" where
  "printed_columns = [''Name'', ''Division'', ''Sex'', ''WeightClassKg'', ''BodyweightKg'',
     ''Best3SquatKg'', ''Best3BenchKg'', ''Best3DeadliftKg'', ''TotalKg'']"

definition table_row :: "row \<Rightarrow> pyerr + string list" where
  "table_row athlete =
     map_err (\<lambda>k. cell_strip (dict_get athlete k (PyStr ''''))) printed_columns"

definition print_group_metric_table :: "(string \<Rightarrow> pyfloat option) \<Rightarrow> (bool \<Rightarrow> (pyfloat \<times> pyfloat) list \<Rightarrow> row list \<Rightarrow> row list) \<Rightarrow> row list \<Rightarrow> string \<Rightarrow> pyerr + string list list" where
  "print_group_metric_table float_of sorted_nan athletes metric =
     and_then (py_sorted_float sorted_nan False (sort_key_athlete float_of metric) athletes)
       (\<lambda>sorted_athletes. map_err table_row (take 3 sorted_athletes))"

section \<open>main1: groups, their order and the filter of duplicates\<close>

definition division_order :: "(string \<times> nat) list" where
  "division_order = [(''Sub-Junior'', 0), (''Junior'', 1), (''M1'', 2), (''M2'', 3),
     (''M3'', 4), (''Open'', 5)]"

text \<open>\<open>division_order.get(k, default)\<close>.\<close>

definition division_order_get :: "string \<Rightarrow> nat \<Rightarrow> nat" where
  "division_order_get k d = (case map_of division_order k of None \<Rightarrow> d | Some n \<Rightarrow> n)"

text \<open>\<open>safe_float\<close> catches \<open>ValueError\<close> and \<open>TypeError\<close>; any other exception passes.\<close>

definition safe_float :: "(string \<Rightarrow> 'f::zero option) \<Rightarrow> cell \<Rightarrow> pyerr + 'f" where
  "safe_float float_of v =
     (case py_float float_of v of
        Inl e \<Rightarrow> (if e = ValueError \<or> e = TypeError then Inr 0 else Inl e)
      | Inr x \<Rightarrow> Inr x)"

text \<open>The loop of \<open>main\<close> over the rows: a row whose place is not a number is skipped;
  the key of a group is (division, sex, weight class).\<close>

definition main1_group_row :: "(cohort \<times> row list) list \<Rightarrow> row \<Rightarrow> pyerr + (cohort \<times> row list) list" where
  "main1_group_row groups row =
     and_then (and_then (dict_item row ''Place'') cell_strip) (\<lambda>place.
       if \<not> isdigit place then Inr groups
       else
         and_then (and_then (dict_item row ''Division'') cell_strip) (\<lambda>division.
         and_then (and_then (dict_item row ''Sex'') cell_strip) (\<lambda>sex.
         and_then (and_then (dict_item row ''WeightClassKg'') cell_strip) (\<lambda>weightclass.
           Inr (dict_append (division, sex, weightclass) row groups)))))"

fun main1_groups_loop :: "(cohort \<times> row list) list \<Rightarrow> row list \<Rightarrow> pyerr + (cohort \<times> row list) list" where
  "main1_groups_loop groups [] = Inr groups"
| "main1_groups_loop groups (row # rows) =
     and_then (main1_group_row groups row) (\<lambda>g. main1_groups_loop g rows)"

text \<open>Each group is sorted by (total, bodyweight) with \<open>reverse=True\<close>.\<close>

definition main1_sort_key :: "(string \<Rightarrow> pyfloat option) \<Rightarrow> row \<Rightarrow> pyerr + (pyfloat \<times> pyfloat)" where
  "main1_sort_key float_of a =
     and_then (safe_float float_of (dict_get a ''TotalKg'' PyNone)) (\<lambda>total.
     and_then (safe_float float_of (dict_get a ''BodyweightKg'' PyNone)) (\<lambda>bodyweight.
       Inr (total, bodyweight)))"

definition main1_result :: "(string \<Rightarrow> pyfloat option) \<Rightarrow> (bool \<Rightarrow> (pyfloat \<times> pyfloat) list \<Rightarrow> row list \<Rightarrow> row list) \<Rightarrow> (cohort \<times> row list) list \<Rightarrow> pyerr + (cohort \<times> row list) list" where
  "main1_result float_of sorted_nan groups =
     map_err (\<lambda>g. and_then (py_sorted_float sorted_nan True (main1_sort_key float_of) (snd g))
                     (\<lambda>athletes. Inr (fst g, athletes))) groups"

text \<open>The groups are visited by (rank of the division with 999 for an unknown one, sex,
  weight class); an athlete is kept in the first group that has an identifier
  (name, sex) not seen before.\<close>

definition main1_key_order :: "cohort \<Rightarrow> pyerr + (nat \<times> string \<times> string)" where
  "main1_key_order k =
     (case k of (division, sex, weightclass) \<Rightarrow>
        Inr (division_order_get division 999, sex, weightclass))"

fun main1_filter :: "(string \<times> string) set \<Rightarrow> row list \<Rightarrow> row list \<Rightarrow> pyerr + (row list \<times> (string \<times> string) set)" where
  "main1_filter unique_athletes filtered [] = Inr (filtered, unique_athletes)"
| "main1_filter unique_athletes filtered (athlete # rest) =
     and_then (and_then (dict_item athlete ''Name'') cell_strip) (\<lambda>name.
     and_then (and_then (dict_item athlete ''Sex'') cell_strip) (\<lambda>sex.
       if (name, sex) \<notin> unique_athletes
       then main1_filter (insert (name, sex) unique_athletes) (filtered @ [athlete]) rest
       else main1_filter unique_athletes filtered rest))"

fun main1_unique_loop :: "(cohort \<times> row list) list \<Rightarrow> (string \<times> string) set \<Rightarrow> (cohort \<times> row list) list \<Rightarrow> cohort list \<Rightarrow> pyerr + (cohort \<times> row list) list" where
  "main1_unique_loop result unique_athletes unique_result [] = Inr unique_result"
| "main1_unique_loop result unique_athletes unique_result (key # keys) =
     and_then (case map_of result key of None \<Rightarrow> Inl KeyError | Some athletes \<Rightarrow> Inr athletes)
       (\<lambda>athletes.
     and_then (main1_filter unique_athletes [] athletes) (\<lambda>fu.
       main1_unique_loop result (snd fu) (AList.update key (fst fu) unique_result) keys))"

text \<open>\<open>main\<close> of main1 from the rows to \<open>unique_result\<close>, which it then prints.\<close>

definition main1_unique_result :: "(string \<Rightarrow> pyfloat option) \<Rightarrow> (bool \<Rightarrow> (pyfloat \<times> pyfloat) list \<Rightarrow> row list \<Rightarrow> row list) \<Rightarrow> row list \<Rightarrow> pyerr + (cohort \<times> row list) list" where
  "main1_unique_result float_of sorted_nan rows =
     and_then (main1_groups_loop [] rows) (\<lambda>groups.
     and_then (main1_result float_of sorted_nan groups) (\<lambda>result.
     and_then (py_sorted main1_key_order (map fst result)) (\<lambda>keys.
       main1_unique_loop result {} [] keys)))"

section \<open>duplicate: athletes in more than one division\<close>

type_synonym divisions = "((string \<times> string) \<times> string set) list"

definition duplicate_row :: "divisions \<Rightarrow> row \<Rightarrow> pyerr + divisions" where
  "duplicate_row athletes_divisions row =
     and_then (cell_strip (dict_get row ''Name'' (PyStr ''''))) (\<lambda>name.
     and_then (cell_strip (dict_get row ''Sex'' (PyStr ''''))) (\<lambda>sex.
     and_then (cell_strip (dict_get row ''Division'' (PyStr ''''))) (\<lambda>division.
       if name \<noteq> [] \<and> sex \<noteq> [] \<and> division \<noteq> []
       then Inr (dict_add (name, sex) division athletes_divisions)
       else Inr athletes_divisions)))"

fun duplicate_loop :: "divisions \<Rightarrow> row list \<Rightarrow> pyerr + divisions" where
  "duplicate_loop athletes_divisions [] = Inr athletes_divisions"
| "duplicate_loop athletes_divisions (row # rows) =
     and_then (duplicate_row athletes_divisions row) (\<lambda>d. duplicate_loop d rows)"

text \<open>\<open>duplicates\<close>: the athletes with more than one division, each with the sorted list
  of the divisions.\<close>

definition duplicates :: "row list \<Rightarrow> pyerr + ((string \<times> string) \<times> string list) list" where
  "duplicates rows =
     and_then (duplicate_loop [] rows) (\<lambda>athletes_divisions.
       Inr (map (\<lambda>kd. (fst kd, sorted_list_of_set (snd kd)))
              (filter (\<lambda>kd. 1 < card (snd kd)) athletes_divisions)))"

section \<open>Reading a row\<close>

text \<open>
  The statements below read a row through \<open>field\<close>, the trimmed text of a column (empty
  when the column is missing), and say with \<open>has_str\<close> that a cell is not \<open>None\<close>.
  \<open>division_rank\<close> is the number \<open>get_division_rank\<close> returns. \<open>parse_ok\<close> and \<open>group_ok\<close>
  are the rows on which \<open>parse_csv\<close> and \<open>group_athletes\<close> call \<open>strip\<close> on strings only;
  \<open>duplicate_ok\<close> the same for the duplicate finder.
\<close>

definition cell_text :: "cell \<Rightarrow> string" where
  "cell_text c = (case c of PyNone \<Rightarrow> [] | PyStr s \<Rightarrow> s)"

definition field :: "row \<Rightarrow> string \<Rightarrow> string" where
  "field r k = strip (cell_text (dict_get r k (PyStr [])))"

definition has_str :: "row \<Rightarrow> string \<Rightarrow> bool" where
  "has_str r k = (dict_get r k (PyStr []) \<noteq> PyNone)"

definition division_rank :: "string \<Rightarrow> nat" where
  "division_rank d = (case get_division_rank d of Inl e \<Rightarrow> 0 | Inr n \<Rightarrow> n)"

definition row_rank :: "row \<Rightarrow> nat" where
  "row_rank r = division_rank (field r ''Division'')"

definition parse_ok :: "row \<Rightarrow> bool" where
  "parse_ok r = (has_str r ''Name'' \<and> (field r ''Name'' = [] \<or> has_str r ''Division''))"

definition group_ok :: "row \<Rightarrow> bool" where
  "group_ok r = (has_str r ''Sex'' \<and> has_str r ''WeightClassKg'' \<and> has_str r ''Division'')"

definition duplicate_ok :: "row \<Rightarrow> bool" where
  "duplicate_ok r = (has_str r ''Name'' \<and> has_str r ''Sex'' \<and> has_str r ''Division'')"

text \<open>What the loop of \<open>parse_csv\<close> does to one name: \<open>pick\<close> keeps the record of the
  lower rank, the earlier one on a tie; \<open>keep_lower\<close> is the loop body without its
  exceptions.\<close>

fun pick :: "row option \<Rightarrow> row \<Rightarrow> row option" where
  "pick None r = Some r"
| "pick (Some e) r = (if row_rank r < row_rank e then Some r else Some e)"

definition keep_lower :: "athletes \<Rightarrow> row \<Rightarrow> athletes" where
  "keep_lower d r =
     (if field r ''Name'' = [] then d
      else case map_of d (field r ''Name'') of
             None \<Rightarrow> AList.update (field r ''Name'') r d
           | Some e \<Rightarrow> if row_rank r < row_rank e then AList.update (field r ''Name'') r d else d)"

definition dict_ok :: "athletes \<Rightarrow> bool" where
  "dict_ok d = list_all (\<lambda>p. has_str (snd p) ''Division'') d"

text \<open>The duplicate finder: \<open>complete\<close> are the rows it counts, \<open>divisions_of rows n s\<close> the
  trimmed divisions the complete rows of the identity (n, s) have, and \<open>lookup_set\<close>
  reads a \<open>defaultdict(set)\<close>.\<close>

definition complete :: "row \<Rightarrow> bool" where
  "complete r = (field r ''Name'' \<noteq> [] \<and> field r ''Sex'' \<noteq> [] \<and> field r ''Division'' \<noteq> [])"

definition divisions_of :: "row list \<Rightarrow> string \<Rightarrow> string \<Rightarrow> string set" where
  "divisions_of rows n s =
     set (map (\<lambda>r. field r ''Division'')
       (filter (\<lambda>r. field r ''Name'' = n \<and> field r ''Sex'' = s \<and>
                  field r ''Name'' \<noteq> [] \<and> field r ''Sex'' \<noteq> [] \<and> field r ''Division'' \<noteq> []) rows))"

definition lookup_set :: "('k \<times> 'v set) list \<Rightarrow> 'k \<Rightarrow> 'v set" where
  "lookup_set d k = (case map_of d k of None \<Rightarrow> {} | Some s \<Rightarrow> s)"

text \<open>
  The ranking of main2. \<open>cell_float\<close> is the float a cell counts for in the sort key: 0.0
  for a missing column and for a string that \<open>float\<close> rejects. \<open>float_ok\<close> says that the
  metric and bodyweight cells are not \<open>None\<close>. \<open>rank_ok\<close> says in addition that neither
  counts as \<open>NaN\<close> and that none of the printed cells is \<open>None\<close>. \<open>cell_number\<close> is the
  number of a cell, \<open>rank_key\<close> the sort key of an athlete, and \<open>table_cells\<close> the line
  printed for an athlete.
\<close>

definition cell_float :: "(string \<Rightarrow> pyfloat option) \<Rightarrow> row \<Rightarrow> string \<Rightarrow> pyfloat" where
  "cell_float float_of a k =
     (case map_of a k of
        None \<Rightarrow> 0
      | Some c \<Rightarrow> (case float_of (cell_text c) of None \<Rightarrow> 0 | Some x \<Rightarrow> x))"

definition float_ok :: "string \<Rightarrow> row \<Rightarrow> bool" where
  "float_ok metric a = (map_of a metric \<noteq> Some PyNone \<and> map_of a ''BodyweightKg'' \<noteq> Some PyNone)"

definition rank_ok :: "(string \<Rightarrow> pyfloat option) \<Rightarrow> string \<Rightarrow> row \<Rightarrow> bool" where
  "rank_ok float_of metric a =
     (float_ok metric a \<and> list_all (has_str a) printed_columns \<and>
      cell_float float_of a metric \<noteq> NaN \<and> cell_float float_of a ''BodyweightKg'' \<noteq> NaN)"

definition cell_number :: "(string \<Rightarrow> pyfloat option) \<Rightarrow> row \<Rightarrow> string \<Rightarrow> pynum" where
  "cell_number float_of a k = num_of (cell_float float_of a k)"

definition rank_key :: "(string \<Rightarrow> pyfloat option) \<Rightarrow> string \<Rightarrow> row \<Rightarrow> pynum \<times> pynum" where
  "rank_key float_of metric a =
     (- cell_number float_of a metric, cell_number float_of a ''BodyweightKg'')"

definition table_cells :: "row \<Rightarrow> string list" where
  "table_cells a = map (field a) printed_columns"

text \<open>
  The group sort of main1. \<open>safe_value\<close> is what \<open>safe_float(a.get(k))\<close> returns,
  \<open>main1_ok\<close> says that neither the total nor the bodyweight is \<open>NaN\<close>, \<open>safe_number\<close> is
  the number of a cell and \<open>main1_key\<close> the sort key of an athlete.
\<close>

definition safe_value :: "(string \<Rightarrow> pyfloat option) \<Rightarrow> row \<Rightarrow> string \<Rightarrow> pyfloat" where
  "safe_value float_of a k =
     (case dict_get a k PyNone of
        PyNone \<Rightarrow> 0
      | PyStr s \<Rightarrow> (case float_of s of None \<Rightarrow> 0 | Some x \<Rightarrow> x))"

definition main1_ok :: "(string \<Rightarrow> pyfloat option) \<Rightarrow> row \<Rightarrow> bool" where
  "main1_ok float_of a =
     (safe_value float_of a ''TotalKg'' \<noteq> NaN \<and> safe_value float_of a ''BodyweightKg'' \<noteq> NaN)"

definition safe_number :: "(string \<Rightarrow> pyfloat option) \<Rightarrow> row \<Rightarrow> string \<Rightarrow> pynum" where
  "safe_number float_of a k = num_of (safe_value float_of a k)"

definition main1_key :: "(string \<Rightarrow> pyfloat option) \<Rightarrow> row \<Rightarrow> pynum \<times> pynum" where
  "main1_key float_of a = (safe_number float_of a ''TotalKg'', safe_number float_of a ''BodyweightKg'')"

section \<open>Lemmas: the error monad and the division rank\<close>

lemma and_then_Inr_iff: "and_then r f = Inr y \<longleftrightarrow> (\<exists>v. r = Inr v \<and> f v = Inr y)"
  by (cases r) auto

lemma list_index_mem: "x \<in> set xs \<Longrightarrow> \<exists>i. list_index xs x = Inr i"
  by (induction xs) auto

lemma get_division_rank_Inr: "get_division_rank d = Inr (division_rank d)"
  using list_index_mem [of d EXPECTED_DIVISIONS]
  by (auto simp: division_rank_def get_division_rank_def)

lemma cell_strip_field: "cell_strip (dict_get r k (PyStr [])) = Inr s \<Longrightarrow> s = field r k \<and> has_str r k"
  by (auto simp: cell_strip_def field_def cell_text_def has_str_def split: cell.splits)

lemma cell_strip_has_str: "has_str r k \<Longrightarrow> cell_strip (dict_get r k (PyStr [])) = Inr (field r k)"
  by (auto simp: cell_strip_def field_def cell_text_def has_str_def split: cell.splits)

lemma parse_csv_row_Inr:
  assumes "parse_csv_row d r = Inr d'"
  shows "d' = keep_lower d r"
proof -
  from assms obtain name where n: "cell_strip (dict_get r ''Name'' (PyStr [])) = Inr name"
    by (auto simp: parse_csv_row_def and_then_Inr_iff)
  then have name: "name = field r ''Name''" by (simp add: cell_strip_field)
  show ?thesis
  proof (cases "name = []")
    case True
    with assms n name show ?thesis by (simp add: parse_csv_row_def keep_lower_def)
  next
    case False
    with assms n obtain division where
      dv: "cell_strip (dict_get r ''Division'' (PyStr [])) = Inr division"
      by (auto simp: parse_csv_row_def and_then_Inr_iff)
    then have division: "division = field r ''Division''" by (simp add: cell_strip_field)
    show ?thesis
    proof (cases "map_of d name")
      case None
      with assms n dv False name show ?thesis
        by (simp add: parse_csv_row_def keep_lower_def get_division_rank_Inr)
    next
      case (Some e)
      with assms n dv False obtain ed where
        ed: "cell_strip (dict_get e ''Division'' (PyStr [])) = Inr ed"
        by (auto simp: parse_csv_row_def and_then_Inr_iff get_division_rank_Inr)
      then have "ed = field e ''Division''" by (simp add: cell_strip_field)
      with assms n dv False name division Some ed show ?thesis
        by (simp add: parse_csv_row_def keep_lower_def get_division_rank_Inr row_rank_def
            split: if_splits)
    qed
  qed
qed

lemma keep_lower_lookup:
  "map_of (keep_lower d r) n =
     (if n = field r ''Name'' \<and> n \<noteq> [] then pick (map_of d n) r else map_of d n)"
  by (simp add: keep_lower_def update_conv' split: option.splits)

lemma parse_csv_row_lookup:
  assumes "parse_csv_row d r = Inr d'"
  shows "map_of d' n = (if n = field r ''Name'' \<and> n \<noteq> [] then pick (map_of d n) r else map_of d n)"
  using parse_csv_row_Inr [OF assms] keep_lower_lookup by simp

lemma parse_csv_row_distinct:
  assumes "parse_csv_row d r = Inr d'" "distinct (map fst d)"
  shows "distinct (map fst d')"
  using parse_csv_row_Inr [OF assms(1)] assms(2)
  by (simp add: keep_lower_def distinct_update split: option.splits)

lemma parse_csv_loop_lookup:
  "parse_csv_loop d rows = Inr d' \<Longrightarrow> n \<noteq> [] \<Longrightarrow>
   map_of d' n = foldl pick (map_of d n) (filter (\<lambda>x. field x ''Name'' = n) rows)"
proof (induction rows arbitrary: d)
  case Nil
  then show ?case by simp
next
  case (Cons r rows)
  from Cons.prems obtain d1 where s: "parse_csv_row d r = Inr d1" and l: "parse_csv_loop d1 rows = Inr d'"
    by (auto simp: and_then_Inr_iff)
  show ?case
    using Cons.IH [OF l Cons.prems(2)] parse_csv_row_lookup [OF s, of n] Cons.prems(2)
    by auto
qed

lemma parse_csv_loop_empty_name:
  "parse_csv_loop d rows = Inr d' \<Longrightarrow> map_of d' [] = map_of d []"
proof (induction rows arbitrary: d)
  case Nil
  then show ?case by simp
next
  case (Cons r rows)
  from Cons.prems obtain d1 where s: "parse_csv_row d r = Inr d1" and l: "parse_csv_loop d1 rows = Inr d'"
    by (auto simp: and_then_Inr_iff)
  show ?case
    using Cons.IH [OF l] parse_csv_row_lookup [OF s, of "[]"] by simp
qed

lemma parse_csv_loop_distinct:
  "parse_csv_loop d rows = Inr d' \<Longrightarrow> distinct (map fst d) \<Longrightarrow> distinct (map fst d')"
proof (induction rows arbitrary: d)
  case Nil
  then show ?case by simp
next
  case (Cons r rows)
  from Cons.prems obtain d1 where s: "parse_csv_row d r = Inr d1" and l: "parse_csv_loop d1 rows = Inr d'"
    by (auto simp: and_then_Inr_iff)
  show ?case
    using Cons.IH [OF l] parse_csv_row_distinct [OF s] Cons.prems(2) by simp
qed

lemma dict_ok_lookup: "dict_ok d \<Longrightarrow> map_of d n = Some e \<Longrightarrow> has_str e ''Division''"
  by (auto simp: dict_ok_def list_all_iff dest!: map_of_SomeD)

lemma dict_ok_update: "dict_ok d \<Longrightarrow> has_str r ''Division'' \<Longrightarrow> dict_ok (AList.update n r d)"
  by (induction d) (auto simp: dict_ok_def)

lemma parse_csv_row_total:
  assumes "parse_ok r" "dict_ok d"
  shows "parse_csv_row d r = Inr (keep_lower d r) \<and> dict_ok (keep_lower d r)"
proof (cases "field r ''Name'' = []")
  case True
  with assms show ?thesis
    by (simp add: parse_csv_row_def parse_ok_def cell_strip_has_str keep_lower_def)
next
  case False
  with assms have h: "has_str r ''Name''" "has_str r ''Division''"
    by (auto simp: parse_ok_def)
  show ?thesis
  proof (cases "map_of d (field r ''Name'')")
    case None
    with False h assms(2) show ?thesis
      by (simp add: parse_csv_row_def cell_strip_has_str keep_lower_def get_division_rank_Inr
          dict_ok_update)
  next
    case (Some e)
    then have "has_str e ''Division''" using assms(2) by (rule dict_ok_lookup [rotated])
    with False h assms(2) Some show ?thesis
      by (simp add: parse_csv_row_def cell_strip_has_str keep_lower_def get_division_rank_Inr
          dict_ok_update row_rank_def)
  qed
qed

lemma parse_csv_loop_total:
  "list_all parse_ok rows \<Longrightarrow> dict_ok d \<Longrightarrow> \<exists>d'. parse_csv_loop d rows = Inr d'"
proof (induction rows arbitrary: d)
  case Nil
  then show ?case by simp
next
  case (Cons r rows)
  then have "parse_csv_row d r = Inr (keep_lower d r)" "dict_ok (keep_lower d r)"
    using parse_csv_row_total [of r d] by auto
  then show ?case using Cons by auto
qed

lemma foldl_pick_Some:
  "foldl pick (Some e) xs = Some r \<Longrightarrow>
   (r = e \<and> (\<forall>x\<in>set xs. row_rank e \<le> row_rank x)) \<or>
   (\<exists>pre post. xs = pre @ r # post \<and> row_rank r < row_rank e \<and>
      (\<forall>x\<in>set pre. row_rank r < row_rank x) \<and> (\<forall>x\<in>set post. row_rank r \<le> row_rank x))"
proof (induction xs arbitrary: e)
  case Nil
  then show ?case by simp
next
  case (Cons x xs)
  show ?case
  proof (cases "row_rank x < row_rank e")
    case True
    with Cons.prems have "foldl pick (Some x) xs = Some r" by simp
    from Cons.IH [OF this] show ?thesis
    proof
      assume "r = x \<and> (\<forall>y\<in>set xs. row_rank x \<le> row_rank y)"
      with True have "x # xs = [] @ r # xs \<and> row_rank r < row_rank e \<and>
        (\<forall>y\<in>set []. row_rank r < row_rank y) \<and> (\<forall>y\<in>set xs. row_rank r \<le> row_rank y)"
        by simp
      then show ?thesis by blast
    next
      assume "\<exists>pre post. xs = pre @ r # post \<and> row_rank r < row_rank x \<and>
        (\<forall>y\<in>set pre. row_rank r < row_rank y) \<and> (\<forall>y\<in>set post. row_rank r \<le> row_rank y)"
      then obtain pre post where p: "xs = pre @ r # post" "row_rank r < row_rank x"
        "\<forall>y\<in>set pre. row_rank r < row_rank y" "\<forall>y\<in>set post. row_rank r \<le> row_rank y"
        by blast
      with True have "x # xs = (x # pre) @ r # post \<and> row_rank r < row_rank e \<and>
        (\<forall>y\<in>set (x # pre). row_rank r < row_rank y) \<and> (\<forall>y\<in>set post. row_rank r \<le> row_rank y)"
        by simp
      then show ?thesis by blast
    qed
  next
    case False
    with Cons.prems have "foldl pick (Some e) xs = Some r" by simp
    from Cons.IH [OF this] show ?thesis
    proof
      assume "r = e \<and> (\<forall>y\<in>set xs. row_rank e \<le> row_rank y)"
      with False show ?thesis by simp
    next
      assume "\<exists>pre post. xs = pre @ r # post \<and> row_rank r < row_rank e \<and>
        (\<forall>y\<in>set pre. row_rank r < row_rank y) \<and> (\<forall>y\<in>set post. row_rank r \<le> row_rank y)"
      then obtain pre post where p: "xs = pre @ r # post" "row_rank r < row_rank e"
        "\<forall>y\<in>set pre. row_rank r < row_rank y" "\<forall>y\<in>set post. row_rank r \<le> row_rank y"
        by blast
      with False have "x # xs = (x # pre) @ r # post \<and> row_rank r < row_rank e \<and>
        (\<forall>y\<in>set (x # pre). row_rank r < row_rank y) \<and> (\<forall>y\<in>set post. row_rank r \<le> row_rank y)"
        by simp
      then show ?thesis by blast
    qed
  qed
qed

lemma foldl_pick_first_lowest:
  assumes "foldl pick None xs = Some r"
  shows "\<exists>pre post. xs = pre @ r # post \<and>
      (\<forall>x\<in>set pre. row_rank r < row_rank x) \<and> (\<forall>x\<in>set post. row_rank r \<le> row_rank x)"
proof (cases xs)
  case Nil
  with assms show ?thesis by simp
next
  case (Cons x xs')
  with assms have "foldl pick (Some x) xs' = Some r" by simp
  from foldl_pick_Some [OF this] show ?thesis
  proof
    assume "r = x \<and> (\<forall>y\<in>set xs'. row_rank x \<le> row_rank y)"
    with Cons have "xs = [] @ r # xs' \<and> (\<forall>y\<in>set []. row_rank r < row_rank y) \<and>
      (\<forall>y\<in>set xs'. row_rank r \<le> row_rank y)" by simp
    then show ?thesis by blast
  next
    assume "\<exists>pre post. xs' = pre @ r # post \<and> row_rank r < row_rank x \<and>
        (\<forall>y\<in>set pre. row_rank r < row_rank y) \<and> (\<forall>y\<in>set post. row_rank r \<le> row_rank y)"
    then obtain pre post where p: "xs' = pre @ r # post" "row_rank r < row_rank x"
        "\<forall>y\<in>set pre. row_rank r < row_rank y" "\<forall>y\<in>set post. row_rank r \<le> row_rank y"
      by blast
    with Cons have "xs = (x # pre) @ r # post \<and>
        (\<forall>y\<in>set (x # pre). row_rank r < row_rank y) \<and> (\<forall>y\<in>set post. row_rank r \<le> row_rank y)"
      by simp
    then show ?thesis by blast
  qed
qed

lemma foldl_pick_Some_defined: "\<exists>r. foldl pick (Some e) xs = Some r"
  by (induction xs arbitrary: e) auto

lemma foldl_pick_None_iff: "foldl pick None xs = None \<longleftrightarrow> xs = []"
  using foldl_pick_Some_defined by (cases xs) auto

lemma parse_csv_total:
  assumes "list_all parse_ok rows"
  shows "\<exists>m. parse_csv rows = Inr m"
  unfolding parse_csv_def using parse_csv_loop_total [OF assms, of "[]"] by (simp add: dict_ok_def)

lemma parse_csv_lookup:
  assumes "parse_csv rows = Inr m"
  shows "map_of m n = (if n = [] then None else foldl pick None (filter (\<lambda>x. field x ''Name'' = n) rows))"
  using assms parse_csv_loop_lookup [of "[]" rows m n] parse_csv_loop_empty_name [of "[]" rows m]
  by (auto simp: parse_csv_def)

lemma parse_csv_distinct:
  assumes "parse_csv rows = Inr m"
  shows "distinct (map fst m)"
  using assms parse_csv_loop_distinct [of "[]" rows m] by (simp add: parse_csv_def)

lemma parse_csv_Some:
  assumes "parse_csv rows = Inr m" "map_of m n = Some r"
  shows "n \<noteq> [] \<and> (\<exists>pre post. filter (\<lambda>x. field x ''Name'' = n) rows = pre @ r # post \<and>
      (\<forall>x\<in>set pre. row_rank r < row_rank x) \<and> (\<forall>x\<in>set post. row_rank r \<le> row_rank x))"
proof -
  from assms parse_csv_lookup [OF assms(1), of n] have n: "n \<noteq> []" by auto
  with assms parse_csv_lookup [OF assms(1), of n]
  have "foldl pick None (filter (\<lambda>x. field x ''Name'' = n) rows) = Some r" by simp
  from foldl_pick_first_lowest [OF this] n show ?thesis by simp
qed

lemma parse_csv_Some_name:
  assumes "parse_csv rows = Inr m" "map_of m n = Some r"
  shows "r \<in> set rows \<and> field r ''Name'' = n \<and> n \<noteq> []"
proof -
  from parse_csv_Some [OF assms] obtain pre post where
    "n \<noteq> []" "filter (\<lambda>x. field x ''Name'' = n) rows = pre @ r # post" by blast
  moreover have "r \<in> set (pre @ r # post)" by simp
  ultimately have "n \<noteq> []" "r \<in> set (filter (\<lambda>x. field x ''Name'' = n) rows)" by simp_all
  then show ?thesis by simp
qed

lemma parse_csv_keys:
  assumes "parse_csv rows = Inr m"
  shows "(n \<in> fst ` set m) = (n \<noteq> [] \<and> (\<exists>r\<in>set rows. field r ''Name'' = n))"
proof -
  have "(n \<in> fst ` set m) = (map_of m n \<noteq> None)"
    by (simp add: map_of_eq_None_iff)
  also have "\<dots> = (n \<noteq> [] \<and> filter (\<lambda>x. field x ''Name'' = n) rows \<noteq> [])"
    using parse_csv_lookup [OF assms, of n]
      foldl_pick_None_iff [of "filter (\<lambda>x. field x ''Name'' = n) rows"]
    by (cases "n = []") auto
  also have "\<dots> = (n \<noteq> [] \<and> (\<exists>r\<in>set rows. field r ''Name'' = n))"
    by (auto simp: filter_empty_conv)
  finally show ?thesis .
qed

lemma filter_key_le_one: "distinct (map fst m) \<Longrightarrow> length (filter (\<lambda>p. fst p = n) m) \<le> Suc 0"
proof (induction m)
  case Nil
  then show ?case by simp
next
  case (Cons p m)
  show ?case
  proof (cases "fst p = n")
    case True
    from Cons.prems have "fst p \<notin> fst ` set m" by simp
    with True have "\<forall>q\<in>set m. fst q \<noteq> n" by (metis imageI)
    then have "filter (\<lambda>q. fst q = n) m = []"
      by (simp add: filter_empty_conv)
    with True show ?thesis by simp
  next
    case False
    with Cons show ?thesis by simp
  qed
qed

lemma length_filter_mono:
  "(\<And>x. x \<in> set xs \<Longrightarrow> P x \<Longrightarrow> Q x) \<Longrightarrow> length (filter P xs) \<le> length (filter Q xs)"
  by (induction xs) auto



lemma update_members:
  "map_of d k = Some vs \<Longrightarrow>
   (\<Union>p\<in>set (AList.update k (vs @ [v]) d). set (snd p)) = insert v (\<Union>p\<in>set d. set (snd p))"
  by (induction d) (auto split: if_splits)

lemma dict_append_members:
  "(\<Union>p\<in>set (dict_append k v d). set (snd p)) = insert v (\<Union>p\<in>set d. set (snd p))"
proof (cases "map_of d k")
  case None
  then show ?thesis by (simp add: dict_append_def)
next
  case (Some vs)
  then show ?thesis using update_members [OF Some, of v] by (simp add: dict_append_def)
qed

lemma group_athletes_row_members:
  assumes "group_athletes_row g a = Inr g'"
  shows "(\<Union>p\<in>set g'. set (snd p)) = insert a (\<Union>p\<in>set g. set (snd p))"
proof -
  from assms obtain k where "g' = dict_append k a g"
    by (auto simp: group_athletes_row_def and_then_Inr_iff)
  then show ?thesis by (simp only: dict_append_members)
qed

lemma group_athletes_loop_members:
  "group_athletes_loop g rs = Inr g' \<Longrightarrow>
   (\<Union>p\<in>set g'. set (snd p)) = (\<Union>p\<in>set g. set (snd p)) \<union> set rs"
proof (induction rs arbitrary: g)
  case Nil
  then show ?case by simp
next
  case (Cons a rs)
  from Cons.prems obtain g1 where s: "group_athletes_row g a = Inr g1"
    and l: "group_athletes_loop g1 rs = Inr g'"
    by (auto simp: and_then_Inr_iff)
  show ?case
    using Cons.IH [OF l] group_athletes_row_members [OF s] by simp
qed

lemma group_athletes_row_total:
  "group_ok a \<Longrightarrow> \<exists>g'. group_athletes_row g a = Inr g'"
  by (simp add: group_athletes_row_def group_ok_def cell_strip_has_str)

lemma group_athletes_loop_total:
  "list_all group_ok rs \<Longrightarrow> \<exists>g'. group_athletes_loop g rs = Inr g'"
proof (induction rs arbitrary: g)
  case Nil
  then show ?case by simp
next
  case (Cons a rs)
  then obtain g1 where "group_athletes_row g a = Inr g1"
    using group_athletes_row_total [of a g] by auto
  with Cons show ?case by auto
qed

section \<open>Lemmas: the duplicate finder\<close>

lemma dict_add_lookup:
  "lookup_set (dict_add k v d) k' = (if k' = k then insert v (lookup_set d k) else lookup_set d k')"
  by (cases "map_of d k") (auto simp: dict_add_def lookup_set_def update_conv' map_of_append
      split: option.splits)

lemma dict_add_distinct: "distinct (map fst d) \<Longrightarrow> distinct (map fst (dict_add k v d))"
proof (cases "map_of d k")
  case None
  assume "distinct (map fst d)"
  moreover from None have "k \<notin> fst ` set d" by (simp add: map_of_eq_None_iff)
  ultimately show ?thesis using None by (simp add: dict_add_def)
next
  case (Some s)
  assume "distinct (map fst d)"
  with Some show ?thesis by (simp add: dict_add_def distinct_update)
qed

lemma update_nonempty:
  "list_all (\<lambda>p. snd p \<noteq> {}) d \<Longrightarrow> s \<noteq> {} \<Longrightarrow> list_all (\<lambda>p. snd p \<noteq> {}) (AList.update k s d)"
  by (induction d) auto

lemma dict_add_nonempty:
  "list_all (\<lambda>p. snd p \<noteq> {}) d \<Longrightarrow> list_all (\<lambda>p. snd p \<noteq> {}) (dict_add k v d)"
  by (cases "map_of d k") (auto simp: dict_add_def update_nonempty)

lemma duplicate_row_Inr:
  assumes "duplicate_row d r = Inr d'"
  shows "d' = (if field r ''Name'' \<noteq> [] \<and> field r ''Sex'' \<noteq> [] \<and> field r ''Division'' \<noteq> []
               then dict_add (field r ''Name'', field r ''Sex'') (field r ''Division'') d else d)"
proof -
  from assms obtain n s v where
    "cell_strip (dict_get r ''Name'' (PyStr [])) = Inr n"
    "cell_strip (dict_get r ''Sex'' (PyStr [])) = Inr s"
    "cell_strip (dict_get r ''Division'' (PyStr [])) = Inr v"
    by (auto simp: duplicate_row_def and_then_Inr_iff)
  moreover from this have "n = field r ''Name''" "s = field r ''Sex''" "v = field r ''Division''"
    by (simp_all add: cell_strip_field)
  ultimately show ?thesis using assms by (auto simp: duplicate_row_def split: if_splits)
qed

lemma duplicate_row_total:
  "duplicate_ok r \<Longrightarrow> \<exists>d'. duplicate_row d r = Inr d'"
  by (simp add: duplicate_row_def duplicate_ok_def cell_strip_has_str)

lemma duplicate_loop_total:
  "list_all duplicate_ok rows \<Longrightarrow> \<exists>d'. duplicate_loop d rows = Inr d'"
proof (induction rows arbitrary: d)
  case Nil
  then show ?case by simp
next
  case (Cons r rows)
  then obtain d1 where "duplicate_row d r = Inr d1"
    using duplicate_row_total [of r d] by auto
  with Cons show ?case by auto
qed

lemma divisions_of_Cons:
  "divisions_of (r # rows) n s =
     (if field r ''Name'' = n \<and> field r ''Sex'' = s \<and> field r ''Name'' \<noteq> [] \<and>
         field r ''Sex'' \<noteq> [] \<and> field r ''Division'' \<noteq> []
      then insert (field r ''Division'') (divisions_of rows n s) else divisions_of rows n s)"
  by (auto simp: divisions_of_def)

lemma duplicate_loop_lookup:
  "duplicate_loop d rows = Inr d' \<Longrightarrow>
   lookup_set d' (n, s) = lookup_set d (n, s) \<union> divisions_of rows n s"
proof (induction rows arbitrary: d)
  case Nil
  then show ?case by (simp add: divisions_of_def)
next
  case (Cons r rows)
  from Cons.prems obtain d1 where s: "duplicate_row d r = Inr d1"
    and l: "duplicate_loop d1 rows = Inr d'"
    by (auto simp: and_then_Inr_iff)
  show ?case
    unfolding Cons.IH [OF l] duplicate_row_Inr [OF s] divisions_of_Cons
    by (auto simp: dict_add_lookup)
qed

lemma duplicate_loop_inv:
  "duplicate_loop d rows = Inr d' \<Longrightarrow> distinct (map fst d) \<Longrightarrow> list_all (\<lambda>p. snd p \<noteq> {}) d \<Longrightarrow>
   distinct (map fst d') \<and> list_all (\<lambda>p. snd p \<noteq> {}) d'"
proof (induction rows arbitrary: d)
  case Nil
  then show ?case by simp
next
  case (Cons r rows)
  from Cons.prems(1) obtain d1 where s: "duplicate_row d r = Inr d1"
    and l: "duplicate_loop d1 rows = Inr d'"
    by (auto simp: and_then_Inr_iff)
  have "distinct (map fst d1)" "list_all (\<lambda>p. snd p \<noteq> {}) d1"
    unfolding duplicate_row_Inr [OF s] using Cons.prems(2,3)
    by (simp_all add: dict_add_distinct dict_add_nonempty)
  with Cons.IH [OF l] show ?case by simp
qed

lemma map_of_filter_values:
  "distinct (map fst al) \<Longrightarrow>
   map_of (map (\<lambda>kd. (fst kd, f (snd kd))) (filter (\<lambda>kd. P (snd kd)) al)) k =
     (case map_of al k of None \<Rightarrow> None | Some v \<Rightarrow> if P v then Some (f v) else None)"
proof (induction al)
  case Nil
  then show ?case by simp
next
  case (Cons p al)
  then have ih: "map_of (map (\<lambda>kd. (fst kd, f (snd kd))) (filter (\<lambda>kd. P (snd kd)) al)) k =
     (case map_of al k of None \<Rightarrow> None | Some v \<Rightarrow> if P v then Some (f v) else None)" by simp
  from Cons.prems have "fst p \<notin> fst ` set al" by simp
  then have "map_of al (fst p) = None" by (simp add: map_of_eq_None_iff)
  with ih show ?case by (cases p) auto
qed

lemma sorted_list_of_set_iff:
  "finite D \<Longrightarrow> (ds = sorted_list_of_set D) = (sorted ds \<and> distinct ds \<and> set ds = D)"
  by (auto simp: sorted_list_of_set.idem_if_sorted_distinct)

lemma duplicates_lookup:
  assumes "list_all duplicate_ok rows"
  shows "\<exists>dups. duplicates rows = Inr dups \<and> distinct (map fst dups) \<and>
    (\<forall>n s ds. (map_of dups (n, s) = Some ds) =
       (1 < card (divisions_of rows n s) \<and> sorted ds \<and> distinct ds \<and>
        set ds = divisions_of rows n s))"
proof -
  from duplicate_loop_total [OF assms, of "[]"] obtain ad where
    ad: "duplicate_loop [] rows = Inr ad" by blast
  from duplicate_loop_inv [OF ad] have d: "distinct (map fst ad)"
    and ne: "list_all (\<lambda>p. snd p \<noteq> {}) ad" by simp_all
  let ?dups = "map (\<lambda>kd. (fst kd, sorted_list_of_set (snd kd))) (filter (\<lambda>kd. 1 < card (snd kd)) ad)"
  have run: "duplicates rows = Inr ?dups" by (simp add: duplicates_def ad)
  have "map fst ?dups = map fst (filter (\<lambda>kd. 1 < card (snd kd)) ad)" by (simp add: comp_def)
  moreover from d have "distinct (map fst (filter (\<lambda>kd. 1 < card (snd kd)) ad))"
    by (rule distinct_map_filter)
  ultimately have dd: "distinct (map fst ?dups)" by (simp only:)
  have look: "lookup_set ad (n, s) = divisions_of rows n s" for n s
    using duplicate_loop_lookup [OF ad, of n s] by (simp add: lookup_set_def)
  have fin: "finite (divisions_of rows n s)" for n s by (simp add: divisions_of_def)
  have m: "map_of ?dups k = (case map_of ad k of None \<Rightarrow> None
      | Some v \<Rightarrow> if 1 < card v then Some (sorted_list_of_set v) else None)" for k
    by (rule map_of_filter_values [OF d])
  have rep: "(map_of ?dups (n, s) = Some ds) =
       (1 < card (divisions_of rows n s) \<and> sorted ds \<and> distinct ds \<and>
        set ds = divisions_of rows n s)" for n s ds
  proof (cases "map_of ad (n, s)")
    case None
    with look [of n s] have "divisions_of rows n s = {}" by (simp add: lookup_set_def)
    with None show ?thesis unfolding m by simp
  next
    case (Some v)
    with look [of n s] have v: "v = divisions_of rows n s" by (simp add: lookup_set_def)
    have "(map_of ?dups (n, s) = Some ds) = (1 < card v \<and> ds = sorted_list_of_set v)"
      unfolding m Some by auto
    also have "\<dots> = (1 < card v \<and> sorted ds \<and> distinct ds \<and> set ds = v)"
      using sorted_list_of_set_iff [of v ds] fin [of n s] v by blast
    finally show ?thesis using v by simp
  qed
  from run dd rep show ?thesis by blast
qed

lemma divisions_of_nonempty:
  "d \<in> divisions_of rows n s \<Longrightarrow> n \<noteq> [] \<and> s \<noteq> [] \<and> d \<noteq> []"
  by (auto simp: divisions_of_def)

lemma duplicate_loop_filter:
  "list_all duplicate_ok rows \<Longrightarrow> duplicate_loop d (filter complete rows) = duplicate_loop d rows"
proof (induction rows arbitrary: d)
  case Nil
  then show ?case by simp
next
  case (Cons r rows)
  then obtain d1 where s: "duplicate_row d r = Inr d1"
    using duplicate_row_total [of r d] by auto
  from duplicate_row_Inr [OF s] have d1: "d1 = (if complete r
      then dict_add (field r ''Name'', field r ''Sex'') (field r ''Division'') d else d)"
    by (simp add: complete_def)
  from Cons have ih: "duplicate_loop d' (filter complete rows) = duplicate_loop d' rows" for d'
    by simp
  show ?case using s d1 ih by (cases "complete r") simp_all
qed

lemma parse_csv_loop_filter:
  "list_all parse_ok rows \<Longrightarrow> dict_ok d \<Longrightarrow>
   parse_csv_loop d (filter (\<lambda>r. field r ''Name'' \<noteq> []) rows) = parse_csv_loop d rows"
proof (induction rows arbitrary: d)
  case Nil
  then show ?case by simp
next
  case (Cons r rows)
  then have s: "parse_csv_row d r = Inr (keep_lower d r)" and ok: "dict_ok (keep_lower d r)"
    using parse_csv_row_total [of r d] by simp_all
  from Cons ok have ih: "parse_csv_loop (keep_lower d r) (filter (\<lambda>r. field r ''Name'' \<noteq> []) rows)
      = parse_csv_loop (keep_lower d r) rows" by simp
  show ?case
  proof (cases "field r ''Name'' = []")
    case True
    then have "keep_lower d r = d" by (simp add: keep_lower_def)
    with True s ih show ?thesis by simp
  next
    case False
    with s ih show ?thesis by simp
  qed
qed

section \<open>Lemmas: sorting and the top three\<close>

lemma digits_of_numeral:
  "digits_of (numeral k) n =
     (if n < 10 then [''0123456789'' ! n]
      else digits_of (pred_numeral k) (n div 10) @ [''0123456789'' ! (n mod 10)])"
  by (simp add: numeral_eq_Suc)

lemma pynum_neg_le: "(- a \<le> - b) = (b \<le> (a::pynum))"
  by (cases a; cases b) (simp_all add: less_eq_pynum_def uminus_pynum_def)

lemma pynum_neg_less: "(- a < - b) = (b < (a::pynum))"
  by (simp add: less_le_not_le pynum_neg_le)

lemma num_of_py_neg: "num_of (py_neg x) = - num_of x"
  by (cases x) (simp_all add: num_of_def py_neg_def zero_pynum_def uminus_pynum_def)

lemma py_neg_NaN: "(py_neg x = NaN) = (x = NaN)"
  by (cases x) (simp_all add: py_neg_def)

lemma float_or_zero_cases:
  "float_or_zero float_of a k =
     (if map_of a k = Some PyNone then Inl TypeError else Inr (cell_float float_of a k))"
  by (auto simp: float_or_zero_def py_float_def cell_float_def cell_text_def
      split: option.splits cell.splits)

lemma sort_key_athlete_cases:
  "sort_key_athlete float_of metric a =
     (if float_ok metric a
      then Inr (py_neg (cell_float float_of a metric), cell_float float_of a ''BodyweightKg'')
      else Inl TypeError)"
  by (simp add: sort_key_athlete_def float_or_zero_cases float_ok_def)

lemma key_num_rank_key:
  "key_num (py_neg (cell_float float_of a metric), cell_float float_of a ''BodyweightKg'') =
     rank_key float_of metric a"
  by (simp add: key_num_def rank_key_def cell_number_def num_of_py_neg)

lemma map_err_Inr:
  "(\<And>x. x \<in> set xs \<Longrightarrow> f x = Inr (g x)) \<Longrightarrow> map_err f xs = Inr (map g xs)"
  by (induction xs) simp_all

lemma map_err_Inl:
  "(\<And>x. x \<in> set xs \<Longrightarrow> f x = Inl e \<or> (\<exists>y. f x = Inr y)) \<Longrightarrow> \<exists>x\<in>set xs. f x = Inl e \<Longrightarrow>
   map_err f xs = Inl e"
proof (induction xs)
  case Nil
  then show ?case by simp
next
  case (Cons x xs)
  show ?case
  proof (cases "f x")
    case (Inl e')
    with Cons.prems(1) [of x] show ?thesis by simp
  next
    case (Inr y)
    with Cons.prems(2) have "\<exists>x\<in>set xs. f x = Inl e" by auto
    with Cons.IH Cons.prems(1) have "map_err f xs = Inl e" by simp
    with Inr show ?thesis by simp
  qed
qed

lemma insort_key_map:
  "insort_key f (g x) (map g ys) = map g (insort_key (\<lambda>y. f (g y)) x ys)"
  by (induction ys) simp_all

lemma sort_key_map: "sort_key f (map g xs) = map g (sort_key (\<lambda>y. f (g y)) xs)"
  by (induction xs) (simp_all add: insort_key_map)

lemma zip_keys: "zip (map k xs) xs = map (\<lambda>x. (k x, x)) xs"
  by (induction xs) simp_all

lemma sort_decorated:
  "map snd (sort_key fst (zip (map k xs) xs)) = sort_key k xs"
  by (simp add: zip_keys sort_key_map comp_def)

lemma sort_decorated_reverse:
  "map snd (rev (sort_key fst (rev (zip (map k xs) xs)))) = rev (sort_key k (rev xs))"
proof -
  have "rev (zip (map k xs) xs) = zip (map k (rev xs)) (rev xs)"
    by (simp add: zip_keys rev_map)
  then have "map snd (rev (sort_key fst (rev (zip (map k xs) xs)))) =
      rev (map snd (sort_key fst (zip (map k (rev xs)) (rev xs))))"
    by (simp add: rev_map)
  then show ?thesis by (simp only: sort_decorated)
qed

lemma py_sorted_float_Inr:
  assumes "\<And>x. x \<in> set xs \<Longrightarrow> key x = Inr (kf x) \<and> key_ordered (kf x)"
  shows "py_sorted_float sorted_nan reverse key xs =
     Inr (if reverse then rev (sort_key (\<lambda>x. key_num (kf x)) (rev xs))
          else sort_key (\<lambda>x. key_num (kf x)) xs)"
proof -
  have m: "map_err key xs = Inr (map kf xs)"
    using assms by (intro map_err_Inr) simp
  have o: "list_all key_ordered (map kf xs)"
    using assms by (simp add: list_all_iff)
  have z: "map key_num (map kf xs) = map (\<lambda>x. key_num (kf x)) xs" by simp
  show ?thesis
    unfolding py_sorted_float_def m and_then.simps z
    using o by (simp add: sort_decorated sort_decorated_reverse)
qed

lemma table_row_Inr:
  assumes "list_all (has_str a) printed_columns"
  shows "table_row a = Inr (table_cells a)"
  unfolding table_row_def table_cells_def
proof (rule map_err_Inr)
  fix k assume "k \<in> set printed_columns"
  with assms have "has_str a k" by (simp add: list_all_iff)
  then show "cell_strip (dict_get a k (PyStr [])) = Inr (field a k)"
    by (rule cell_strip_has_str)
qed

lemma print_group_metric_table_ranks:
  assumes "list_all (rank_ok float_of metric) athletes"
  shows "print_group_metric_table float_of sorted_nan athletes metric =
     Inr (map table_cells (take 3 (sort_key (rank_key float_of metric) athletes)))"
proof -
  have "py_sorted_float sorted_nan False (sort_key_athlete float_of metric) athletes =
      Inr (if False then rev (sort_key (\<lambda>a. key_num (py_neg (cell_float float_of a metric),
                 cell_float float_of a ''BodyweightKg'')) (rev athletes))
           else sort_key (\<lambda>a. key_num (py_neg (cell_float float_of a metric),
                 cell_float float_of a ''BodyweightKg'')) athletes)"
  proof (rule py_sorted_float_Inr)
    fix x assume "x \<in> set athletes"
    with assms have "rank_ok float_of metric x" by (simp add: list_all_iff)
    then show "sort_key_athlete float_of metric x =
        Inr (py_neg (cell_float float_of x metric), cell_float float_of x ''BodyweightKg'') \<and>
        key_ordered (py_neg (cell_float float_of x metric), cell_float float_of x ''BodyweightKg'')"
      by (simp add: sort_key_athlete_cases rank_ok_def key_ordered_def py_neg_NaN)
  qed
  then have s: "py_sorted_float sorted_nan False (sort_key_athlete float_of metric) athletes =
      Inr (sort_key (rank_key float_of metric) athletes)"
    by (simp add: key_num_rank_key)
  have "map_err table_row (take 3 (sort_key (rank_key float_of metric) athletes)) =
      Inr (map table_cells (take 3 (sort_key (rank_key float_of metric) athletes)))"
  proof (rule map_err_Inr)
    fix a assume "a \<in> set (take 3 (sort_key (rank_key float_of metric) athletes))"
    then have "a \<in> set (sort_key (rank_key float_of metric) athletes)" by (rule in_set_takeD)
    then have "a \<in> set athletes" by simp
    with assms have "rank_ok float_of metric a" by (simp add: list_all_iff)
    then show "table_row a = Inr (table_cells a)"
      by (simp add: rank_ok_def table_row_Inr)
  qed
  with s show ?thesis by (simp add: print_group_metric_table_def)
qed

lemma print_group_metric_table_raises:
  assumes "\<not> list_all (float_ok metric) athletes"
  shows "print_group_metric_table float_of sorted_nan athletes metric = Inl TypeError"
proof -
  from assms have "\<exists>x\<in>set athletes. sort_key_athlete float_of metric x = Inl TypeError"
    by (auto simp: list_all_iff sort_key_athlete_cases)
  moreover have "sort_key_athlete float_of metric x = Inl TypeError \<or>
      (\<exists>y. sort_key_athlete float_of metric x = Inr y)" for x
    by (simp add: sort_key_athlete_cases)
  ultimately have "map_err (sort_key_athlete float_of metric) athletes = Inl TypeError"
    using map_err_Inl [of athletes "sort_key_athlete float_of metric" TypeError] by blast
  then show ?thesis by (simp add: print_group_metric_table_def py_sorted_float_def)
qed

lemma rank_key_le:
  "(rank_key float_of metric a \<le> rank_key float_of metric b) =
     (cell_number float_of b metric < cell_number float_of a metric \<or>
      cell_number float_of a metric = cell_number float_of b metric \<and>
      cell_number float_of a ''BodyweightKg'' \<le> cell_number float_of b ''BodyweightKg'')"
  by (auto simp: rank_key_def less_eq_prod_def pynum_neg_le pynum_neg_less)

lemma safe_float_value:
  "safe_float float_of (dict_get a k PyNone) = Inr (safe_value float_of a k)"
  by (simp add: safe_float_def py_float_def safe_value_def split: cell.splits option.splits)

lemma main1_sort_key_Inr:
  "main1_sort_key float_of a =
     Inr (safe_value float_of a ''TotalKg'', safe_value float_of a ''BodyweightKg'')"
  by (simp add: main1_sort_key_def safe_float_value)

lemma main1_result_sorted:
  assumes "list_all (\<lambda>g. list_all (main1_ok float_of) (snd g)) groups"
  shows "main1_result float_of sorted_nan groups =
     Inr (map (\<lambda>g. (fst g, rev (sort_key (main1_key float_of) (rev (snd g))))) groups)"
  unfolding main1_result_def
proof (rule map_err_Inr)
  fix g assume "g \<in> set groups"
  with assms have ok: "list_all (main1_ok float_of) (snd g)" by (simp add: list_all_iff)
  have "py_sorted_float sorted_nan True (main1_sort_key float_of) (snd g) =
      Inr (if True then rev (sort_key (\<lambda>a. key_num (safe_value float_of a ''TotalKg'',
                 safe_value float_of a ''BodyweightKg'')) (rev (snd g)))
           else sort_key (\<lambda>a. key_num (safe_value float_of a ''TotalKg'',
                 safe_value float_of a ''BodyweightKg'')) (snd g))"
  proof (rule py_sorted_float_Inr)
    fix x assume "x \<in> set (snd g)"
    with ok have "main1_ok float_of x" by (simp add: list_all_iff)
    then show "main1_sort_key float_of x =
        Inr (safe_value float_of x ''TotalKg'', safe_value float_of x ''BodyweightKg'') \<and>
        key_ordered (safe_value float_of x ''TotalKg'', safe_value float_of x ''BodyweightKg'')"
      by (simp add: main1_sort_key_Inr main1_ok_def key_ordered_def)
  qed
  moreover have "(\<lambda>a. key_num (safe_value float_of a ''TotalKg'',
      safe_value float_of a ''BodyweightKg'')) = main1_key float_of"
    by (rule ext) (simp add: key_num_def main1_key_def safe_number_def)
  ultimately have "py_sorted_float sorted_nan True (main1_sort_key float_of) (snd g) =
      Inr (rev (sort_key (main1_key float_of) (rev (snd g))))"
    by simp
  then show "and_then (py_sorted_float sorted_nan True (main1_sort_key float_of) (snd g))
      (\<lambda>athletes. Inr (fst g, athletes)) =
      Inr (fst g, rev (sort_key (main1_key float_of) (rev (snd g))))"
    by simp
qed

lemma main1_key_le:
  "(main1_key float_of a \<le> main1_key float_of b) =
     (safe_number float_of a ''TotalKg'' < safe_number float_of b ''TotalKg'' \<or>
      safe_number float_of a ''TotalKg'' = safe_number float_of b ''TotalKg'' \<and>
      safe_number float_of a ''BodyweightKg'' \<le> safe_number float_of b ''BodyweightKg'')"
  by (auto simp: main1_key_def less_eq_prod_def)

lemma main1_group_descending:
  "sorted (rev (map (main1_key float_of) (rev (sort_key (main1_key float_of) (rev xs))))) \<and>
   length (rev (sort_key (main1_key float_of) (rev xs))) = length xs"
  by (simp add: rev_map [symmetric])

lemmas row_eval = parse_csv_def parse_csv_row_def cell_strip_def dict_get_def strip_def
  is_space_def get_division_rank_def EXPECTED_DIVISIONS_def

lemmas ok_eval = parse_ok_def group_ok_def duplicate_ok_def has_str_def field_def cell_text_def
  dict_get_def strip_def is_space_def

lemmas group_eval = group_athletes_def group_athletes_row_def dict_append_def


lemmas float_eval = float_digits_def digits_value_def digit_value_def str_digits_def
  digits_of_numeral

lemmas key_eval = main2_sorted_group_keys_def sorted_group_keys_def group_sort_key_def
  py_sorted_def lower_def lower_char_def upper_chars_def lower_chars_def

lemmas num_eval = zero_pyfloat_def zero_pynum_def uminus_pynum_def less_eq_pynum_def
  less_pynum_def py_neg_def num_of_def key_ordered_def key_num_def pyfloat_digits_def
  sorted_nan_unused_def

lemmas rank_eval = print_group_metric_table_def py_sorted_float_def sort_key_athlete_def
  float_or_zero_def py_float_def table_row_def printed_columns_def cell_strip_def dict_get_def
  strip_def is_space_def

lemmas main1_eval = main1_unique_result_def main1_group_row_def main1_result_def
  main1_sort_key_def main1_key_order_def py_sorted_def py_sorted_float_def
  safe_float_def py_float_def dict_item_def dict_get_def cell_strip_def strip_def is_space_def
  isdigit_def is_digit_char_def dict_append_def division_order_get_def division_order_def

section \<open>The division rank\<close>

text \<open>
  C6. \<open>get_division_rank\<close> returns a rank for every string and never raises. A division
  that is not in \<open>EXPECTED_DIVISIONS\<close> gets the successor of the worst canonical rank
  (a rank that a canonical division has and that no canonical division exceeds), so it
  ranks strictly worse than every canonical division; \<open>Masters-X\<close> ranks strictly
  worse than \<open>Open\<close>. The table \<open>division_order\<close> of main1 holds the canonical
  divisions with the same ranks.
\<close>

theorem get_division_rank_total_fallback:
  "(\<exists>n. get_division_rank d = Inr n) \<and>
   (d \<notin> set EXPECTED_DIVISIONS \<longrightarrow>
      (\<exists>worst. get_division_rank d = Inr (Suc worst) \<and>
         (\<exists>c\<in>set EXPECTED_DIVISIONS. get_division_rank c = Inr worst) \<and>
         (\<forall>c\<in>set EXPECTED_DIVISIONS. \<exists>n. get_division_rank c = Inr n \<and> n \<le> worst))) \<and>
   (\<exists>m n. get_division_rank ''Open'' = Inr m \<and> get_division_rank ''Masters-X'' = Inr n \<and> m < n) \<and>
   (\<forall>c n. (map_of division_order c = Some n) =
      (c \<in> set EXPECTED_DIVISIONS \<and> get_division_rank c = Inr n))"
proof -
  have total: "\<exists>n. get_division_rank d = Inr n"
    by (simp add: get_division_rank_def EXPECTED_DIVISIONS_def)
  have canonical: "\<forall>c\<in>set EXPECTED_DIVISIONS. \<exists>n. get_division_rank c = Inr n \<and> n \<le> 5"
    by (simp add: get_division_rank_def EXPECTED_DIVISIONS_def)
  have worst: "\<exists>c\<in>set EXPECTED_DIVISIONS. get_division_rank c = Inr 5"
    by (simp add: get_division_rank_def EXPECTED_DIVISIONS_def)
  have unknown: "get_division_rank d = Inr (Suc 5)" if "d \<notin> set EXPECTED_DIVISIONS"
    using that by (simp add: get_division_rank_def EXPECTED_DIVISIONS_def)
  have masters: "get_division_rank ''Open'' = Inr 5 \<and> get_division_rank ''Masters-X'' = Inr 6 \<and>
      (5::nat) < 6"
    by (simp add: get_division_rank_def EXPECTED_DIVISIONS_def)
  have table: "(map_of division_order c = Some n) =
      (c \<in> set EXPECTED_DIVISIONS \<and> get_division_rank c = Inr n)" for c n
    by (auto simp: division_order_def get_division_rank_def EXPECTED_DIVISIONS_def)
  from total canonical worst unknown masters table show ?thesis by blast
qed

theorem get_division_rank_total_fallback_witness:
  "''Masters-X'' \<notin> set EXPECTED_DIVISIONS \<and> get_division_rank ''Masters-X'' = Inr 6 \<and>
   get_division_rank ''Open'' = Inr 5 \<and> get_division_rank ''Sub-Junior'' = Inr 0"
  using get_division_rank_total_fallback [of "''Masters-X''"]
  by (simp add: get_division_rank_def EXPECTED_DIVISIONS_def)

section \<open>main2: what the deduplicator merges\<close>

text \<open>
  C1, as the code has it. On rows whose \<open>Name\<close> cell and (for a named row) \<open>Division\<close>
  cell are strings, \<open>parse_csv\<close> returns a dictionary with one entry per trimmed
  non-empty name: every named input record is represented by the entry under its
  trimmed name, which is a record of the input, and two named records are represented
  by the same entry exactly when their trimmed names are equal (compared as they are,
  case included). The sex is not part of the key; since the entry of a name is one
  record, at most one canonical record exists per (name, sex) pair.
\<close>

theorem parse_csv_identity_is_name:
  assumes "list_all parse_ok rows"
  shows "\<exists>m. parse_csv rows = Inr m \<and> distinct (map fst m) \<and>
    (\<forall>a\<in>set rows. \<forall>b\<in>set rows. field a ''Name'' \<noteq> [] \<longrightarrow> field b ''Name'' \<noteq> [] \<longrightarrow>
       (\<exists>ra rb. map_of m (field a ''Name'') = Some ra \<and> map_of m (field b ''Name'') = Some rb \<and>
          ra \<in> set rows \<and> rb \<in> set rows \<and>
          ((ra = rb) = (field a ''Name'' = field b ''Name'')))) \<and>
    (\<forall>n s. length (filter (\<lambda>r. field r ''Name'' = n \<and> field r ''Sex'' = s) (map snd m)) \<le> 1)"
proof -
  from parse_csv_total [OF assms] obtain m where m: "parse_csv rows = Inr m" by blast
  have d: "distinct (map fst m)" by (rule parse_csv_distinct [OF m])
  have rep: "\<exists>ra. map_of m (field a ''Name'') = Some ra \<and> ra \<in> set rows \<and>
      field ra ''Name'' = field a ''Name''"
    if "a \<in> set rows" "field a ''Name'' \<noteq> []" for a
  proof -
    from that have "field a ''Name'' \<in> fst ` set m"
      using parse_csv_keys [OF m, of "field a ''Name''"] by blast
    then obtain ra where "map_of m (field a ''Name'') = Some ra"
      by (metis map_of_eq_None_iff not_None_eq)
    with parse_csv_Some_name [OF m this] show ?thesis by simp
  qed
  have merged: "\<exists>ra rb. map_of m (field a ''Name'') = Some ra \<and> map_of m (field b ''Name'') = Some rb \<and>
          ra \<in> set rows \<and> rb \<in> set rows \<and>
          ((ra = rb) = (field a ''Name'' = field b ''Name''))"
    if "a \<in> set rows" "b \<in> set rows" "field a ''Name'' \<noteq> []" "field b ''Name'' \<noteq> []" for a b
  proof -
    from rep [OF that(1,3)] obtain ra where ra: "map_of m (field a ''Name'') = Some ra"
      "ra \<in> set rows" "field ra ''Name'' = field a ''Name''" by blast
    from rep [OF that(2,4)] obtain rb where rb: "map_of m (field b ''Name'') = Some rb"
      "rb \<in> set rows" "field rb ''Name'' = field b ''Name''" by blast
    have "(ra = rb) = (field a ''Name'' = field b ''Name'')"
      using ra rb by auto
    with ra rb show ?thesis by blast
  qed
  have one: "length (filter (\<lambda>r. field r ''Name'' = n \<and> field r ''Sex'' = s) (map snd m)) \<le> 1" for n s
  proof -
    have "length (filter (\<lambda>r. field r ''Name'' = n \<and> field r ''Sex'' = s) (map snd m))
        = length (filter (\<lambda>p. field (snd p) ''Name'' = n \<and> field (snd p) ''Sex'' = s) m)"
      by (simp add: filter_map comp_def)
    also have "\<dots> \<le> length (filter (\<lambda>p. fst p = n) m)"
    proof (rule length_filter_mono)
      fix p assume p: "p \<in> set m" "field (snd p) ''Name'' = n \<and> field (snd p) ''Sex'' = s"
      from p(1) d have "map_of m (fst p) = Some (snd p)" by simp
      from parse_csv_Some_name [OF m this] p(2) show "fst p = n" by simp
    qed
    also have "\<dots> \<le> 1" using filter_key_le_one [OF d] by simp
    finally show ?thesis .
  qed
  from m d merged one show ?thesis by blast
qed

theorem parse_csv_identity_is_name_witness:
  "list_all parse_ok
     [[(''Name'', PyStr '' Alex ''), (''Sex'', PyStr ''M''), (''Division'', PyStr ''Open'')],
      [(''Name'', PyStr ''Alex''), (''Sex'', PyStr ''F''), (''Division'', PyStr ''M1'')],
      [(''Name'', PyStr ''alex''), (''Sex'', PyStr ''F''), (''Division'', PyStr ''M1'')]] \<and>
   (\<exists>m. parse_csv
     [[(''Name'', PyStr '' Alex ''), (''Sex'', PyStr ''M''), (''Division'', PyStr ''Open'')],
      [(''Name'', PyStr ''Alex''), (''Sex'', PyStr ''F''), (''Division'', PyStr ''M1'')],
      [(''Name'', PyStr ''alex''), (''Sex'', PyStr ''F''), (''Division'', PyStr ''M1'')]] = Inr m \<and>
      distinct (map fst m) \<and>
      length (filter (\<lambda>r. field r ''Name'' = ''Alex'' \<and> field r ''Sex'' = ''F'') (map snd m)) \<le> 1)"
proof -
  have ok: "list_all parse_ok
     [[(''Name'', PyStr '' Alex ''), (''Sex'', PyStr ''M''), (''Division'', PyStr ''Open'')],
      [(''Name'', PyStr ''Alex''), (''Sex'', PyStr ''F''), (''Division'', PyStr ''M1'')],
      [(''Name'', PyStr ''alex''), (''Sex'', PyStr ''F''), (''Division'', PyStr ''M1'')]]"
    by (simp add: ok_eval)
  from parse_csv_identity_is_name [OF ok] ok show ?thesis by blast
qed

text \<open>Two records of one name and different sex are merged: one entry is left.\<close>

theorem parse_csv_merges_across_sex:
  "parse_csv
     [[(''Name'', PyStr ''Alex''), (''Sex'', PyStr ''M''), (''Division'', PyStr ''Open'')],
      [(''Name'', PyStr ''Alex''), (''Sex'', PyStr ''F''), (''Division'', PyStr ''Open'')]]
   = Inr [(''Alex'', [(''Name'', PyStr ''Alex''), (''Sex'', PyStr ''M''), (''Division'', PyStr ''Open'')])]"
  by (simp add: row_eval)

section \<open>main2: which record the deduplicator keeps\<close>

text \<open>
  C2, as the code has it. On rows whose \<open>Name\<close> cell and (for a named row) \<open>Division\<close>
  cell are strings, the dictionary that \<open>parse_csv\<close> returns has one entry for each trimmed
  non-empty name of the input, and the record kept for a name is, among the records
  of that name in input order, the first one of the lowest division rank: every
  record of the name before it has a strictly higher rank, every one after it a rank
  at least as high.
\<close>

theorem parse_csv_keeps_first_lowest_rank:
  assumes "list_all parse_ok rows"
  shows "\<exists>m. parse_csv rows = Inr m \<and> distinct (map fst m) \<and>
    (\<forall>n. (n \<in> fst ` set m) = (n \<noteq> [] \<and> (\<exists>r\<in>set rows. field r ''Name'' = n))) \<and>
    (\<forall>n r. map_of m n = Some r \<longrightarrow>
       (\<exists>pre post. filter (\<lambda>x. field x ''Name'' = n) rows = pre @ r # post \<and>
          (\<forall>x\<in>set pre. row_rank r < row_rank x) \<and> (\<forall>x\<in>set post. row_rank r \<le> row_rank x)))"
proof -
  from parse_csv_total [OF assms] obtain m where m: "parse_csv rows = Inr m" by blast
  have "\<forall>n. (n \<in> fst ` set m) = (n \<noteq> [] \<and> (\<exists>r\<in>set rows. field r ''Name'' = n))"
    using parse_csv_keys [OF m] by blast
  moreover have "\<forall>n r. map_of m n = Some r \<longrightarrow>
       (\<exists>pre post. filter (\<lambda>x. field x ''Name'' = n) rows = pre @ r # post \<and>
          (\<forall>x\<in>set pre. row_rank r < row_rank x) \<and> (\<forall>x\<in>set post. row_rank r \<le> row_rank x))"
    using parse_csv_Some [OF m] by blast
  ultimately show ?thesis using m parse_csv_distinct [OF m] by blast
qed

theorem parse_csv_keeps_first_lowest_rank_witness:
  "list_all parse_ok
     [[(''Name'', PyStr ''Alice''), (''Sex'', PyStr ''F''), (''Division'', PyStr ''Open''), (''TotalKg'', PyStr ''270'')],
      [(''Name'', PyStr ''Alice''), (''Sex'', PyStr ''F''), (''Division'', PyStr ''M1''), (''TotalKg'', PyStr ''261'')],
      [(''Name'', PyStr ''Bob''), (''Sex'', PyStr ''F''), (''Division'', PyStr ''Open''), (''TotalKg'', PyStr ''245'')],
      [(''Name'', PyStr ''Alice''), (''Sex'', PyStr ''F''), (''Division'', PyStr ''M1''), (''TotalKg'', PyStr ''255'')]] \<and>
   parse_csv
     [[(''Name'', PyStr ''Alice''), (''Sex'', PyStr ''F''), (''Division'', PyStr ''Open''), (''TotalKg'', PyStr ''270'')],
      [(''Name'', PyStr ''Alice''), (''Sex'', PyStr ''F''), (''Division'', PyStr ''M1''), (''TotalKg'', PyStr ''261'')],
      [(''Name'', PyStr ''Bob''), (''Sex'', PyStr ''F''), (''Division'', PyStr ''Open''), (''TotalKg'', PyStr ''245'')],
      [(''Name'', PyStr ''Alice''), (''Sex'', PyStr ''F''), (''Division'', PyStr ''M1''), (''TotalKg'', PyStr ''255'')]]
   = Inr [(''Alice'', [(''Name'', PyStr ''Alice''), (''Sex'', PyStr ''F''), (''Division'', PyStr ''M1''), (''TotalKg'', PyStr ''261'')]),
          (''Bob'', [(''Name'', PyStr ''Bob''), (''Sex'', PyStr ''F''), (''Division'', PyStr ''Open''), (''TotalKg'', PyStr ''245'')])] \<and>
   (\<exists>pre post.
      filter (\<lambda>x. field x ''Name'' = ''Alice'')
        [[(''Name'', PyStr ''Alice''), (''Sex'', PyStr ''F''), (''Division'', PyStr ''Open''), (''TotalKg'', PyStr ''270'')],
      [(''Name'', PyStr ''Alice''), (''Sex'', PyStr ''F''), (''Division'', PyStr ''M1''), (''TotalKg'', PyStr ''261'')],
      [(''Name'', PyStr ''Bob''), (''Sex'', PyStr ''F''), (''Division'', PyStr ''Open''), (''TotalKg'', PyStr ''245'')],
      [(''Name'', PyStr ''Alice''), (''Sex'', PyStr ''F''), (''Division'', PyStr ''M1''), (''TotalKg'', PyStr ''255'')]]
      = pre @ [(''Name'', PyStr ''Alice''), (''Sex'', PyStr ''F''), (''Division'', PyStr ''M1''), (''TotalKg'', PyStr ''261'')] # post \<and>
      list_all (\<lambda>x. row_rank [(''Name'', PyStr ''Alice''), (''Sex'', PyStr ''F''), (''Division'', PyStr ''M1''), (''TotalKg'', PyStr ''261'')] < row_rank x) pre \<and>
      list_all (\<lambda>x. row_rank [(''Name'', PyStr ''Alice''), (''Sex'', PyStr ''F''), (''Division'', PyStr ''M1''), (''TotalKg'', PyStr ''261'')] \<le> row_rank x) post)"
proof -
  let ?rows = "[[(''Name'', PyStr ''Alice''), (''Sex'', PyStr ''F''), (''Division'', PyStr ''Open''), (''TotalKg'', PyStr ''270'')],
      [(''Name'', PyStr ''Alice''), (''Sex'', PyStr ''F''), (''Division'', PyStr ''M1''), (''TotalKg'', PyStr ''261'')],
      [(''Name'', PyStr ''Bob''), (''Sex'', PyStr ''F''), (''Division'', PyStr ''Open''), (''TotalKg'', PyStr ''245'')],
      [(''Name'', PyStr ''Alice''), (''Sex'', PyStr ''F''), (''Division'', PyStr ''M1''), (''TotalKg'', PyStr ''255'')]]"
  let ?kept = "[(''Name'', PyStr ''Alice''), (''Sex'', PyStr ''F''), (''Division'', PyStr ''M1''), (''TotalKg'', PyStr ''261'')]"
  have ok: "list_all parse_ok ?rows"
    by (simp add: ok_eval)
  have run: "parse_csv ?rows = Inr [(''Alice'', ?kept), (''Bob'', [(''Name'', PyStr ''Bob''), (''Sex'', PyStr ''F''), (''Division'', PyStr ''Open''), (''TotalKg'', PyStr ''245'')])]"
    by (simp add: row_eval)
  from parse_csv_keeps_first_lowest_rank [OF ok] run
  have "\<exists>pre post. filter (\<lambda>x. field x ''Name'' = ''Alice'') ?rows = pre @ ?kept # post \<and>
      (\<forall>x\<in>set pre. row_rank ?kept < row_rank x) \<and> (\<forall>x\<in>set post. row_rank ?kept \<le> row_rank x)"
    by simp
  then have "\<exists>pre post. filter (\<lambda>x. field x ''Name'' = ''Alice'') ?rows = pre @ ?kept # post \<and>
      list_all (\<lambda>x. row_rank ?kept < row_rank x) pre \<and> list_all (\<lambda>x. row_rank ?kept \<le> row_rank x) post"
    unfolding list_all_iff .
  with ok run show ?thesis by blast
qed

text \<open>With the identity (name, sex): the only record of (Kim, M) is not kept.\<close>

theorem parse_csv_drops_lowest_of_identity:
  "parse_csv
     [[(''Name'', PyStr ''Kim''), (''Sex'', PyStr ''M''), (''Division'', PyStr ''Junior'')],
      [(''Name'', PyStr ''Kim''), (''Sex'', PyStr ''F''), (''Division'', PyStr ''Sub-Junior'')]]
   = Inr [(''Kim'', [(''Name'', PyStr ''Kim''), (''Sex'', PyStr ''F''), (''Division'', PyStr ''Sub-Junior'')])]"
  by (simp add: row_eval)

section \<open>main2: the order of the input\<close>




section \<open>Records with an empty name, sex or division\<close>

text \<open>
  C4, as the code has it. On rows whose \<open>Name\<close>, \<open>Sex\<close>, \<open>Division\<close> and \<open>WeightClassKg\<close>
  cells are strings: \<open>parse_csv\<close> gives the same result with the records of empty trimmed
  name removed from the input, every canonical record is an input record of non-empty
  trimmed name, and the cohorts of \<open>group_athletes\<close> hold the canonical records and
  nothing else; the name is the only field \<open>parse_csv\<close> looks at for this. The duplicate
  finder gives the same result with every record removed that has an empty trimmed
  name, sex or division, and reports no identity with an empty name or sex and no empty
  division.
\<close>

theorem empty_fields_excluded:
  assumes "list_all parse_ok rows" "list_all group_ok rows"
  shows "parse_csv (filter (\<lambda>r. field r ''Name'' \<noteq> []) rows) = parse_csv rows \<and>
    duplicates (filter complete rows) = duplicates rows \<and>
    (\<exists>m g dups. parse_csv rows = Inr m \<and> group_athletes m = Inr g \<and> duplicates rows = Inr dups \<and>
      (\<forall>r\<in>set (map snd m). r \<in> set rows \<and> field r ''Name'' \<noteq> []) \<and>
      (\<Union>p\<in>set g. set (snd p)) = set (map snd m) \<and>
      (\<forall>n s ds. map_of dups (n, s) = Some ds \<longrightarrow> n \<noteq> [] \<and> s \<noteq> [] \<and> [] \<notin> set ds))"
proof -
  have dok: "list_all duplicate_ok rows"
    using assms by (auto simp: list_all_iff parse_ok_def group_ok_def duplicate_ok_def)
  have p: "parse_csv (filter (\<lambda>r. field r ''Name'' \<noteq> []) rows) = parse_csv rows"
    using parse_csv_loop_filter [OF assms(1), of "[]"] by (simp add: parse_csv_def dict_ok_def)
  have q: "duplicates (filter complete rows) = duplicates rows"
    using duplicate_loop_filter [OF dok, of "[]"] by (simp add: duplicates_def)
  from parse_csv_total [OF assms(1)] obtain m where m: "parse_csv rows = Inr m" by blast
  have c: "r \<in> set rows \<and> field r ''Name'' \<noteq> []" if "r \<in> set (map snd m)" for r
  proof -
    from that obtain n where "(n, r) \<in> set m" by auto
    with parse_csv_distinct [OF m] have "map_of m n = Some r" by simp
    from parse_csv_Some_name [OF m this] show ?thesis by simp
  qed
  with assms(2) have "list_all group_ok (map snd m)"
    unfolding list_all_iff by blast
  from group_athletes_loop_total [OF this, of "[]"] obtain g where
    g: "group_athletes m = Inr g" by (auto simp: group_athletes_def)
  then have u: "(\<Union>p\<in>set g. set (snd p)) = set (map snd m)"
    using group_athletes_loop_members [of "[]" "map snd m" g] by (simp add: group_athletes_def)
  from duplicates_lookup [OF dok] obtain dups where dups: "duplicates rows = Inr dups"
    and rep: "\<And>n s ds. (map_of dups (n, s) = Some ds) =
       (1 < card (divisions_of rows n s) \<and> sorted ds \<and> distinct ds \<and>
        set ds = divisions_of rows n s)" by blast
  have e: "n \<noteq> [] \<and> s \<noteq> [] \<and> [] \<notin> set ds" if "map_of dups (n, s) = Some ds" for n s ds
  proof -
    from that rep have k: "1 < card (divisions_of rows n s)" and ds: "set ds = divisions_of rows n s"
      by simp_all
    from k have "divisions_of rows n s \<noteq> {}" by auto
    then obtain d where "d \<in> divisions_of rows n s" by blast
    from divisions_of_nonempty [OF this] have "n \<noteq> []" "s \<noteq> []" by simp_all
    moreover have "[] \<notin> set ds" using divisions_of_nonempty [of "[]" rows n s] ds by auto
    ultimately show ?thesis by simp
  qed
  from p q m g dups c u e show ?thesis by blast
qed

theorem empty_fields_excluded_witness:
  "list_all parse_ok
     [[(''Name'', PyStr ''  ''), (''Sex'', PyStr ''F''), (''Division'', PyStr ''Open''), (''WeightClassKg'', PyStr ''60'')],
      [(''Name'', PyStr ''Ann''), (''Sex'', PyStr ''F''), (''Division'', PyStr ''Open''), (''WeightClassKg'', PyStr ''60'')]] \<and>
   list_all group_ok
     [[(''Name'', PyStr ''  ''), (''Sex'', PyStr ''F''), (''Division'', PyStr ''Open''), (''WeightClassKg'', PyStr ''60'')],
      [(''Name'', PyStr ''Ann''), (''Sex'', PyStr ''F''), (''Division'', PyStr ''Open''), (''WeightClassKg'', PyStr ''60'')]] \<and>
   parse_csv (filter (\<lambda>r. field r ''Name'' \<noteq> [])
     [[(''Name'', PyStr ''  ''), (''Sex'', PyStr ''F''), (''Division'', PyStr ''Open''), (''WeightClassKg'', PyStr ''60'')],
      [(''Name'', PyStr ''Ann''), (''Sex'', PyStr ''F''), (''Division'', PyStr ''Open''), (''WeightClassKg'', PyStr ''60'')]])
   = Inr [(''Ann'', [(''Name'', PyStr ''Ann''), (''Sex'', PyStr ''F''), (''Division'', PyStr ''Open''), (''WeightClassKg'', PyStr ''60'')])]"
proof -
  let ?rows = "[[(''Name'', PyStr ''  ''), (''Sex'', PyStr ''F''), (''Division'', PyStr ''Open''), (''WeightClassKg'', PyStr ''60'')],
      [(''Name'', PyStr ''Ann''), (''Sex'', PyStr ''F''), (''Division'', PyStr ''Open''), (''WeightClassKg'', PyStr ''60'')]]"
  have ok: "list_all parse_ok ?rows" "list_all group_ok ?rows"
    by (simp_all add: ok_eval)
  have run: "parse_csv ?rows = Inr [(''Ann'', [(''Name'', PyStr ''Ann''), (''Sex'', PyStr ''F''), (''Division'', PyStr ''Open''), (''WeightClassKg'', PyStr ''60'')])]"
    by (simp add: row_eval)
  from empty_fields_excluded [OF ok]
  have "parse_csv (filter (\<lambda>r. field r ''Name'' \<noteq> []) ?rows) = parse_csv ?rows" by blast
  with ok run show ?thesis by (simp only:)
qed

text \<open>A record with a name and with an empty sex and division becomes canonical and is
  in a cohort.\<close>

theorem parse_csv_keeps_empty_sex_and_division:
  "parse_csv [[(''Name'', PyStr ''Ann''), (''Sex'', PyStr ''''), (''Division'', PyStr '' ''), (''WeightClassKg'', PyStr ''60'')]]
   = Inr [(''Ann'', [(''Name'', PyStr ''Ann''), (''Sex'', PyStr ''''), (''Division'', PyStr '' ''), (''WeightClassKg'', PyStr ''60'')])] \<and>
   group_athletes [(''Ann'', [(''Name'', PyStr ''Ann''), (''Sex'', PyStr ''''), (''Division'', PyStr '' ''), (''WeightClassKg'', PyStr ''60'')])]
   = Inr [(('''', ''60'', ''''), [[(''Name'', PyStr ''Ann''), (''Sex'', PyStr ''''), (''Division'', PyStr '' ''), (''WeightClassKg'', PyStr ''60'')]])]"
  by (simp add: row_eval group_eval)

section \<open>duplicate: what is reported\<close>



section \<open>The top three of a cohort\<close>

text \<open>
  C3, as the code has it. Take a cohort of main2 in which, for every athlete, the metric
  and bodyweight cells are strings or missing columns that do not count as \<open>NaN\<close>, and no
  printed cell is \<open>None\<close>. For every metric \<open>print_group_metric_table\<close> prints the first three
  records of the cohort sorted stably by \<open>rank_key\<close>: descending by the number of the
  metric cell, then ascending by the number of the bodyweight cell, where a missing
  column and a string that \<open>float\<close> rejects count as 0. It prints three records, or all of
  the cohort when it has fewer. The group sort of main1 is another one: where no total
  and no bodyweight is \<open>NaN\<close>, every group is sorted stably, descending by
  (total, bodyweight) as \<open>safe_float\<close> reads them, so that ties of the total go to the
  heavier athlete, and nothing is cut off.
\<close>

theorem print_group_metric_table_top3:
  assumes "list_all (rank_ok float_of metric) athletes"
    and "list_all (\<lambda>g. list_all (main1_ok float_of) (snd g)) groups"
  shows "(\<exists>best. best = take 3 (sort_key (rank_key float_of metric) athletes) \<and>
      print_group_metric_table float_of sorted_nan athletes metric = Inr (map table_cells best) \<and>
      length best = min 3 (length athletes) \<and>
      sorted (map (rank_key float_of metric) best)) \<and>
    (\<forall>a b. (rank_key float_of metric a \<le> rank_key float_of metric b) =
       (cell_number float_of b metric < cell_number float_of a metric \<or>
        cell_number float_of a metric = cell_number float_of b metric \<and>
        cell_number float_of a ''BodyweightKg'' \<le> cell_number float_of b ''BodyweightKg'')) \<and>
    main1_result float_of sorted_nan groups =
      Inr (map (\<lambda>g. (fst g, rev (sort_key (main1_key float_of) (rev (snd g))))) groups) \<and>
    (\<forall>xs. sorted (rev (map (main1_key float_of) (rev (sort_key (main1_key float_of) (rev xs))))) \<and>
       length (rev (sort_key (main1_key float_of) (rev xs))) = length xs) \<and>
    (\<forall>a b. (main1_key float_of a \<le> main1_key float_of b) =
       (safe_number float_of a ''TotalKg'' < safe_number float_of b ''TotalKg'' \<or>
        safe_number float_of a ''TotalKg'' = safe_number float_of b ''TotalKg'' \<and>
        safe_number float_of a ''BodyweightKg'' \<le> safe_number float_of b ''BodyweightKg''))"
proof -
  let ?best = "take 3 (sort_key (rank_key float_of metric) athletes)"
  have run: "print_group_metric_table float_of sorted_nan athletes metric =
      Inr (map table_cells ?best)"
    by (rule print_group_metric_table_ranks [OF assms(1)])
  have "sorted (map (rank_key float_of metric) (sort_key (rank_key float_of metric) athletes))"
    by (rule sorted_sort_key)
  then have "sorted (take 3 (map (rank_key float_of metric)
      (sort_key (rank_key float_of metric) athletes)))" by (rule sorted_wrt_take)
  then have s: "sorted (map (rank_key float_of metric) ?best)" by (simp add: take_map)
  have l: "length ?best = min 3 (length athletes)" by (simp add: min.commute)
  from run s l have main2: "\<exists>best. best = take 3 (sort_key (rank_key float_of metric) athletes) \<and>
      print_group_metric_table float_of sorted_nan athletes metric = Inr (map table_cells best) \<and>
      length best = min 3 (length athletes) \<and>
      sorted (map (rank_key float_of metric) best)"
    by blast
  with rank_key_le [of float_of metric]
    main1_result_sorted [OF assms(2), of sorted_nan] main1_group_descending [of float_of]
    main1_key_le [of float_of]
  show ?thesis by blast
qed

theorem print_group_metric_table_top3_witness:
  "list_all (rank_ok pyfloat_digits ''TotalKg'')
     [[(''Name'', PyStr ''A''), (''BodyweightKg'', PyStr ''80''), (''TotalKg'', PyStr ''100'')],
      [(''Name'', PyStr ''B''), (''BodyweightKg'', PyStr ''75''), (''TotalKg'', PyStr ''100'')],
      [(''Name'', PyStr ''C''), (''BodyweightKg'', PyStr ''70''), (''TotalKg'', PyStr ''90'')],
      [(''Name'', PyStr ''D''), (''TotalKg'', PyStr ''100'')],
      [(''Name'', PyStr ''E''), (''BodyweightKg'', PyStr ''70''), (''TotalKg'', PyStr ''n/a'')]] \<and>
   list_all (\<lambda>g. list_all (main1_ok pyfloat_digits) (snd g))
     [((''Open'', ''F'', ''60''),
       [[(''Name'', PyStr ''A''), (''BodyweightKg'', PyStr ''55''), (''TotalKg'', PyStr ''100'')],
        [(''Name'', PyStr ''B''), (''BodyweightKg'', PyStr ''58''), (''TotalKg'', PyStr ''100'')],
        [(''Name'', PyStr ''C''), (''BodyweightKg'', PyStr ''50''), (''TotalKg'', PyStr ''90'')],
        [(''Name'', PyStr ''D''), (''BodyweightKg'', PyStr ''50''), (''TotalKg'', PyStr ''80'')]])] \<and>
   print_group_metric_table pyfloat_digits sorted_nan_unused
     [[(''Name'', PyStr ''A''), (''BodyweightKg'', PyStr ''80''), (''TotalKg'', PyStr ''100'')],
      [(''Name'', PyStr ''B''), (''BodyweightKg'', PyStr ''75''), (''TotalKg'', PyStr ''100'')],
      [(''Name'', PyStr ''C''), (''BodyweightKg'', PyStr ''70''), (''TotalKg'', PyStr ''90'')],
      [(''Name'', PyStr ''D''), (''TotalKg'', PyStr ''100'')],
      [(''Name'', PyStr ''E''), (''BodyweightKg'', PyStr ''70''), (''TotalKg'', PyStr ''n/a'')]] ''TotalKg''
   = Inr [[''D'', '''', '''', '''', '''', '''', '''', '''', ''100''],
      [''B'', '''', '''', '''', ''75'', '''', '''', '''', ''100''],
      [''A'', '''', '''', '''', ''80'', '''', '''', '''', ''100'']]"
proof -
  let ?athletes = "[[(''Name'', PyStr ''A''), (''BodyweightKg'', PyStr ''80''), (''TotalKg'', PyStr ''100'')],
      [(''Name'', PyStr ''B''), (''BodyweightKg'', PyStr ''75''), (''TotalKg'', PyStr ''100'')],
      [(''Name'', PyStr ''C''), (''BodyweightKg'', PyStr ''70''), (''TotalKg'', PyStr ''90'')],
      [(''Name'', PyStr ''D''), (''TotalKg'', PyStr ''100'')],
      [(''Name'', PyStr ''E''), (''BodyweightKg'', PyStr ''70''), (''TotalKg'', PyStr ''n/a'')]]"
  let ?groups = "[((''Open'', ''F'', ''60''),
       [[(''Name'', PyStr ''A''), (''BodyweightKg'', PyStr ''55''), (''TotalKg'', PyStr ''100'')],
        [(''Name'', PyStr ''B''), (''BodyweightKg'', PyStr ''58''), (''TotalKg'', PyStr ''100'')],
        [(''Name'', PyStr ''C''), (''BodyweightKg'', PyStr ''50''), (''TotalKg'', PyStr ''90'')],
        [(''Name'', PyStr ''D''), (''BodyweightKg'', PyStr ''50''), (''TotalKg'', PyStr ''80'')]])]"
  have ok: "list_all (rank_ok pyfloat_digits ''TotalKg'') ?athletes"
    by (simp add: rank_ok_def float_ok_def has_str_def dict_get_def printed_columns_def
        cell_float_def cell_text_def num_eval float_eval)
  have ok1: "list_all (\<lambda>g. list_all (main1_ok pyfloat_digits) (snd g)) ?groups"
    by (simp add: main1_ok_def safe_value_def dict_get_def num_eval float_eval)
  from print_group_metric_table_top3 [OF ok ok1, of sorted_nan_unused]
  have "print_group_metric_table pyfloat_digits sorted_nan_unused ?athletes ''TotalKg'' =
      Inr (map table_cells (take 3 (sort_key (rank_key pyfloat_digits ''TotalKg'') ?athletes)))"
    by blast
  moreover have "map table_cells (take 3 (sort_key (rank_key pyfloat_digits ''TotalKg'') ?athletes)) =
      [[''D'', '''', '''', '''', '''', '''', '''', '''', ''100''],
      [''B'', '''', '''', '''', ''75'', '''', '''', '''', ''100''],
      [''A'', '''', '''', '''', ''80'', '''', '''', '''', ''100'']]"
    by (simp add: rank_key_def cell_number_def cell_float_def cell_text_def table_cells_def
        printed_columns_def field_def dict_get_def strip_def is_space_def num_eval float_eval)
  ultimately show ?thesis using ok ok1 by (simp only:)
qed

text \<open>main1 sorts a group with \<open>reverse=True\<close>: of two athletes with the total 100 the one
  of bodyweight 58 comes before the one of 55, and the four athletes all stay. In main2 a
  metric cell that is \<open>None\<close> (a line shorter than the header) makes \<open>float\<close> raise
  \<open>TypeError\<close>, which \<open>sort_key\<close> does not catch.\<close>

theorem ranking_heavier_first_and_none_cell:
  "main1_result pyfloat_digits sorted_nan_unused
     [((''Open'', ''F'', ''60''),
       [[(''Name'', PyStr ''A''), (''BodyweightKg'', PyStr ''55''), (''TotalKg'', PyStr ''100'')],
        [(''Name'', PyStr ''B''), (''BodyweightKg'', PyStr ''58''), (''TotalKg'', PyStr ''100'')],
        [(''Name'', PyStr ''C''), (''BodyweightKg'', PyStr ''50''), (''TotalKg'', PyStr ''90'')],
        [(''Name'', PyStr ''D''), (''BodyweightKg'', PyStr ''50''), (''TotalKg'', PyStr ''80'')]])]
   = Inr [((''Open'', ''F'', ''60''),
       [[(''Name'', PyStr ''B''), (''BodyweightKg'', PyStr ''58''), (''TotalKg'', PyStr ''100'')],
        [(''Name'', PyStr ''A''), (''BodyweightKg'', PyStr ''55''), (''TotalKg'', PyStr ''100'')],
        [(''Name'', PyStr ''C''), (''BodyweightKg'', PyStr ''50''), (''TotalKg'', PyStr ''90'')],
        [(''Name'', PyStr ''D''), (''BodyweightKg'', PyStr ''50''), (''TotalKg'', PyStr ''80'')]])] \<and>
   print_group_metric_table pyfloat_digits sorted_nan_unused
     [[(''Name'', PyStr ''Ann''), (''Sex'', PyStr ''F''), (''Division'', PyStr ''Open''), (''WeightClassKg'', PyStr ''60''), (''BodyweightKg'', PyStr ''55''), (''TotalKg'', PyNone)]]
     ''TotalKg'' = Inl TypeError"
  by (simp add: main1_eval rank_eval num_eval float_eval)

lemma print_group_metric_table_none_raises:
  "\<not> list_all (float_ok metric) athletes \<Longrightarrow>
   print_group_metric_table float_of sorted_nan athletes metric = Inl TypeError"
  by (rule print_group_metric_table_raises)

section \<open>The order of the cohorts\<close>

text \<open>
  C5. \<open>group_sort_key\<close> gives the lower-cased sex, then \<open>str\<close> of the float of the weight class
  (the weight class itself when it is no number), then the division rank, and the
  cohorts are sorted by these keys: two weight classes that both read as numbers are
  compared as the strings \<open>str\<close> prints, not as numbers. For the cohorts (F, 52, Open) and
  (F, 100, Open) the keys hold \<open>52.0\<close> and \<open>100.0\<close>, and the cohort of 100 comes first.
\<close>

theorem cohort_order_not_numeric:
  "main2_sorted_group_keys float_digits str_digits
     [[(''Name'', PyStr ''Ann''), (''Sex'', PyStr ''F''), (''Division'', PyStr ''Open''), (''WeightClassKg'', PyStr ''52'')],
      [(''Name'', PyStr ''Bea''), (''Sex'', PyStr ''F''), (''Division'', PyStr ''Open''), (''WeightClassKg'', PyStr ''100'')]]
   = Inr [(''F'', ''100'', ''Open''), (''F'', ''52'', ''Open'')] \<and>
   float_digits ''52'' = Some 52 \<and> float_digits ''100'' = Some 100 \<and>
   group_sort_key float_digits str_digits (''F'', ''52'', ''Open'') = Inr (''f'', ''52.0'', 5) \<and>
   group_sort_key float_digits str_digits (''F'', ''100'', ''Open'') = Inr (''f'', ''100.0'', 5)"
  by (simp add: main2_sorted_group_keys_def row_eval group_eval key_eval float_eval)

section \<open>main1 and main2 deduplicate differently\<close>

text \<open>
  C8. There is an input on which the deduplication of main1 (the groups visited in
  division order, the first record seen of an identity kept) and that of main2 (the
  ranks compared) keep different records of one athlete identity. The input has two
  different records \<open>a\<close> and \<open>b\<close>, in this order, of one non-empty name and one sex. Both
  pass the place filter of main1 and stand in its groups, each in a group of its own,
  before and after the groups are sorted. The loop of main1 over the groups visits the
  group of \<open>b\<close> first, keeps \<open>b\<close> there and drops \<open>a\<close> from the other group, which it leaves
  empty. main2 stores \<open>a\<close>, finds the division rank of \<open>b\<close> equal to that of \<open>a\<close> and
  leaves \<open>a\<close> in its dictionary.
\<close>

theorem dedup_policies_differ:
  "\<exists>rows a b ka kb groups u m.
     rows = [a, b] \<and> a \<noteq> b \<and>
     field a ''Name'' = field b ''Name'' \<and> field a ''Sex'' = field b ''Sex'' \<and> field a ''Name'' \<noteq> [] \<and>
     main1_groups_loop [] rows = Inr groups \<and> groups = [(ka, [a]), (kb, [b])] \<and>
     main1_result float_of sorted_nan groups = Inr groups \<and>
     py_sorted main1_key_order (map fst groups) = Inr [kb, ka] \<and>
     main1_unique_loop groups {} [] [kb, ka] = Inr u \<and> u = [(kb, [b]), (ka, [])] \<and>
     main1_unique_result float_of sorted_nan rows = Inr u \<and>
     row_rank a = row_rank b \<and>
     parse_csv_row [] a = Inr m \<and> m = [(field a ''Name'', a)] \<and> parse_csv_row m b = Inr m \<and>
     parse_csv rows = Inr m"
proof -
  let ?r1 = "[(''Name'', PyStr ''Ann''), (''Sex'', PyStr ''F''), (''Division'', PyStr ''Open''), (''WeightClassKg'', PyStr ''70''), (''Place'', PyStr ''1'')]"
  let ?r2 = "[(''Name'', PyStr ''Ann''), (''Sex'', PyStr ''F''), (''Division'', PyStr ''Open''), (''WeightClassKg'', PyStr ''60''), (''Place'', PyStr ''1'')]"
  let ?rows = "[?r1, ?r2]"
  let ?ka = "(''Open'', ''F'', ''70'')"
  let ?kb = "(''Open'', ''F'', ''60'')"
  let ?groups = "[(?ka, [?r1]), (?kb, [?r2])]"
  let ?u = "[(?kb, [?r2]), (?ka, [])]"
  let ?m = "[(field ?r1 ''Name'', ?r1)]"
  have s1: "?r1 \<noteq> ?r2" by simp
  have s2: "field ?r1 ''Name'' = field ?r2 ''Name''"
    by (simp add: field_def dict_get_def cell_text_def strip_def is_space_def)
  have s3: "field ?r1 ''Sex'' = field ?r2 ''Sex''"
    by (simp add: field_def dict_get_def cell_text_def strip_def is_space_def)
  have s4: "field ?r1 ''Name'' \<noteq> []"
    by (simp add: field_def dict_get_def cell_text_def strip_def is_space_def)
  have g: "main1_groups_loop [] ?rows = Inr ?groups"
    by (simp add: main1_eval)
  have s: "main1_result float_of sorted_nan ?groups = Inr ?groups"
    by (simp add: main1_eval num_eval)
  have v: "py_sorted main1_key_order (map fst ?groups) = Inr [?kb, ?ka]"
    by (simp add: main1_eval)
  have f: "main1_unique_loop ?groups {} [] [?kb, ?ka] = Inr ?u"
    by (simp add: main1_eval)
  have m1: "main1_unique_result float_of sorted_nan ?rows = Inr ?u"
    by (simp add: main1_eval num_eval)
  have r: "row_rank ?r1 = row_rank ?r2"
    by (simp add: row_rank_def field_def dict_get_def)
  have p1: "parse_csv_row [] ?r1 = Inr ?m"
    by (simp add: row_eval field_def cell_text_def)
  have p2: "parse_csv_row ?m ?r2 = Inr ?m"
    by (simp add: row_eval field_def cell_text_def)
  have m2: "parse_csv ?rows = Inr ?m"
    by (simp add: row_eval field_def cell_text_def)
  have c: "?rows = [?r1, ?r2] \<and> ?r1 \<noteq> ?r2 \<and>
     field ?r1 ''Name'' = field ?r2 ''Name'' \<and> field ?r1 ''Sex'' = field ?r2 ''Sex'' \<and> field ?r1 ''Name'' \<noteq> [] \<and>
     main1_groups_loop [] ?rows = Inr ?groups \<and> ?groups = [(?ka, [?r1]), (?kb, [?r2])] \<and>
     main1_result float_of sorted_nan ?groups = Inr ?groups \<and>
     py_sorted main1_key_order (map fst ?groups) = Inr [?kb, ?ka] \<and>
     main1_unique_loop ?groups {} [] [?kb, ?ka] = Inr ?u \<and> ?u = [(?kb, [?r2]), (?ka, [])] \<and>
     main1_unique_result float_of sorted_nan ?rows = Inr ?u \<and>
     row_rank ?r1 = row_rank ?r2 \<and>
     parse_csv_row [] ?r1 = Inr ?m \<and> ?m = [(field ?r1 ''Name'', ?r1)] \<and> parse_csv_row ?m ?r2 = Inr ?m \<and>
     parse_csv ?rows = Inr ?m"
    by (intro conjI refl s1 s2 s3 s4 g s v f m1 r p1 p2 m2)
  show ?thesis
    by (rule exI [of _ ?rows], rule exI [of _ ?r1], rule exI [of _ ?r2], rule exI [of _ ?ka],
        rule exI [of _ ?kb], rule exI [of _ ?groups], rule exI [of _ ?u], rule exI [of _ ?m])
      (rule c)
qed

section \<open>safe_float\<close>

text \<open>
  C10, as the code has it. For \<open>None\<close> and for every string, \<open>safe_float\<close> of main1 returns a
  float and raises nothing: 0.0 when the input is \<open>None\<close> or a string that \<open>float\<close> rejects,
  and the float of the string otherwise. So it returns 0.0 exactly when the input is
  \<open>None\<close>, is rejected by \<open>float\<close>, or reads as zero.
\<close>

theorem safe_float_total:
  "\<exists>x. safe_float float_of v = Inr x \<and>
     (x = 0) = (v = PyNone \<or> (\<exists>s. v = PyStr s \<and> (float_of s = None \<or> float_of s = Some 0))) \<and>
     (\<forall>s y. v = PyStr s \<longrightarrow> float_of s = Some y \<longrightarrow> x = y)"
  by (cases v) (auto simp: safe_float_def py_float_def split: option.splits)

theorem safe_float_total_witness:
  "safe_float float_digits (PyStr ''abc'') = Inr 0 \<and> float_digits ''abc'' = None \<and>
   safe_float float_digits PyNone = Inr 0 \<and>
   safe_float float_digits (PyStr ''261'') = Inr 261"
  using safe_float_total [of float_digits "PyStr ''abc''"]
    safe_float_total [of float_digits "PyStr ''261''"]
  by (simp add: safe_float_def py_float_def float_eval)

text \<open>The string 0 is read by \<open>float\<close>, and \<open>safe_float\<close> returns 0.0 on it.\<close>

theorem safe_float_zero_of_parsed:
  "safe_float float_digits (PyStr ''0'') = Inr 0 \<and> float_digits ''0'' = Some 0"
  by (simp add: safe_float_def py_float_def float_eval)

end
